theory Spec2Isabelle
  imports Complex_Main "HOL-Library.Multiset"
begin

section \<open>JavaScript values\<close>

text \<open>
  The modules exchange JSON documents and branch on \<^verbatim>\<open>typeof\<close>, truthiness and
  \<^verbatim>\<open>Array.isArray\<close>, so records are modelled as untyped JavaScript values. Numbers are
  exact rationals: \<^verbatim>\<open>NaN\<close>, the infinities and rounding are not represented. An object is
  the list of its own properties in insertion order. An array has no named properties in
  this model: assigning one leaves the array as it is, which is also all that
  \<^verbatim>\<open>JSON.stringify\<close> writes of such an array.
\<close>

datatype jsval =
    JUndefined
  | JNull
  | JBool bool
  | JNum rat
  | JStr string
  | JArr "jsval list"
  | JObj "(string \<times> jsval) list"

type_synonym jsobj = "(string \<times> jsval) list"

fun objSet :: "'k \<Rightarrow> 'v \<Rightarrow> ('k \<times> 'v) list \<Rightarrow> ('k \<times> 'v) list" where
  "objSet k v [] = [(k, v)]"
| "objSet k v ((k', v') # al) =
     (if k' = k then (k, v) # al else (k', v') # objSet k v al)"

text \<open>\<^verbatim>\<open>v[k]\<close> for a property name \<open>k\<close>.\<close>

fun getProp :: "jsval \<Rightarrow> string \<Rightarrow> jsval" where
  "getProp (JObj al) k = (case map_of al k of Some v \<Rightarrow> v | None \<Rightarrow> JUndefined)"
| "getProp _ k = JUndefined"

text \<open>\<^verbatim>\<open>v[k] = x\<close>, returning the updated \<open>v\<close>.\<close>

fun setProp :: "string \<Rightarrow> jsval \<Rightarrow> jsval \<Rightarrow> jsval" where
  "setProp k x (JObj al) = JObj (objSet k x al)"
| "setProp k x v = v"

fun truthy :: "jsval \<Rightarrow> bool" where
  "truthy JUndefined = False"
| "truthy JNull = False"
| "truthy (JBool b) = b"
| "truthy (JNum r) = (r \<noteq> 0)"
| "truthy (JStr s) = (s \<noteq> [])"
| "truthy (JArr xs) = True"
| "truthy (JObj al) = True"

text \<open>\<^verbatim>\<open>typeof v === "object"\<close> holds of \<^verbatim>\<open>null\<close>, arrays and objects.\<close>

fun typeofObject :: "jsval \<Rightarrow> bool" where
  "typeofObject JNull = True"
| "typeofObject (JArr xs) = True"
| "typeofObject (JObj al) = True"
| "typeofObject _ = False"

fun typeofNumber :: "jsval \<Rightarrow> bool" where
  "typeofNumber (JNum r) = True"
| "typeofNumber _ = False"

fun isArray :: "jsval \<Rightarrow> bool" where
  "isArray (JArr xs) = True"
| "isArray _ = False"

section \<open>Record core (lib/pipeline-core.js)\<close>

text \<open>
  \<^verbatim>\<open>tagEnabled()\<close> is \<^verbatim>\<open>cli.get("param.do-tag") === true\<close>; the functions below take
  the resolved value of the parameter.
\<close>

definition tagEnabled :: "jsval \<Rightarrow> bool" where
  "tagEnabled doTag = (doTag = JBool True)"

definition normalizeObject :: "jsval \<Rightarrow> jsval" where
  "normalizeObject value =
     (let obj0 = (if \<not> typeofObject value \<or> value = JNull
                  then JObj [(''meta'', JObj []), (''data'', JObj [(''value'', value)])]
                  else value);
          obj1 = (if \<not> truthy (getProp obj0 ''meta'') \<or> \<not> typeofObject (getProp obj0 ''meta'')
                  then setProp ''meta'' (JObj []) obj0 else obj0);
          obj2 = (if \<not> truthy (getProp obj1 ''data'') \<or> \<not> typeofObject (getProp obj1 ''data'')
                  then setProp ''data'' (JObj []) obj1 else obj1)
      in if \<not> isArray (getProp (getProp obj2 ''meta'') ''pipeline'')
         then setProp ''meta'' (setProp ''pipeline'' (JArr []) (getProp obj2 ''meta'')) obj2
         else obj2)"

definition createMeta :: "jsval \<Rightarrow> rat \<Rightarrow> string \<Rightarrow> jsval" where
  "createMeta doTag now tag =
     JObj [(''timestamp'', JNum now),
           (''pipeline'', if tagEnabled doTag then JArr [JStr tag] else JArr [])]"

text \<open>\<^verbatim>\<open>appendTag\<close> mutates \<open>meta\<close> in place; the model returns the meta afterwards.\<close>

definition appendTag :: "jsval \<Rightarrow> jsval \<Rightarrow> string \<Rightarrow> jsval" where
  "appendTag doTag meta tag =
     (if \<not> tagEnabled doTag then meta
      else if \<not> truthy meta \<or> \<not> typeofObject meta then meta
      else (case getProp meta ''pipeline'' of
              JArr tags \<Rightarrow> setProp ''pipeline'' (JArr (tags @ [JStr tag])) meta
            | _ \<Rightarrow> setProp ''pipeline'' (JArr [JStr tag]) meta))"

section \<open>Strings\<close>

definition isDigit :: "char \<Rightarrow> bool" where
  "isDigit c = (c \<in> set ''0123456789'')"

definition isHexDigit :: "char \<Rightarrow> bool" where
  "isHexDigit c = (c \<in> set ''0123456789abcdefABCDEF'')"

text \<open>White space as \<^verbatim>\<open>String.prototype.trim\<close> sees it, within ASCII.\<close>

definition isSpace :: "char \<Rightarrow> bool" where
  "isSpace c = (c \<in> set [CHR '' '', CHR 0x09, CHR 0x0A, CHR 0x0B, CHR 0x0C, CHR 0x0D])"

definition trim :: "string \<Rightarrow> string" where
  "trim s = rev (dropWhile isSpace (rev (dropWhile isSpace s)))"

definition lowerChar :: "char \<Rightarrow> char" where
  "lowerChar c =
     (case map_of (zip ''ABCDEFGHIJKLMNOPQRSTUVWXYZ'' ''abcdefghijklmnopqrstuvwxyz'') c of
        Some l \<Rightarrow> l | None \<Rightarrow> c)"

definition toLowerCase :: "string \<Rightarrow> string" where
  "toLowerCase s = map lowerChar s"

text \<open>\<^verbatim>\<open>s.split(sep)\<close> for a one-character separator.\<close>

fun splitOn :: "char \<Rightarrow> string \<Rightarrow> string list" where
  "splitOn sep [] = [[]]"
| "splitOn sep (c # cs) =
     (if c = sep then [] # splitOn sep cs
      else (case splitOn sep cs of
              [] \<Rightarrow> [[c]]
            | p # ps \<Rightarrow> (c # p) # ps))"

fun digitValue :: "char \<Rightarrow> nat" where
  "digitValue c = (case map_of (zip ''0123456789'' [0, 1, 2, 3, 4, 5, 6, 7, 8, 9]) c of
                     Some d \<Rightarrow> d | None \<Rightarrow> 0)"

text \<open>The value of a string of decimal digits, most significant first.\<close>

definition digitsToNat :: "string \<Rightarrow> nat" where
  "digitsToNat s = foldl (\<lambda>acc c. 10 * acc + digitValue c) 0 s"

text \<open>A natural number in decimal, as \<^verbatim>\<open>String(n)\<close> prints it.\<close>

function natToString :: "nat \<Rightarrow> string" where
  "natToString n =
     (if n < 10 then [''0123456789'' ! n]
      else natToString (n div 10) @ [''0123456789'' ! (n mod 10)])"
  by pat_completeness auto
termination
  by (relation "measure id") auto

text \<open>
  \<^verbatim>\<open>String(x)\<close> for a number: the integer part in decimal and, for a number with a
  fractional part, a point and the digits of the fraction. JavaScript prints the
  shortest decimal that reads back as the same double; the model prints the exact
  decimal of the rational, which is the same string for a decimal of up to 17 digits,
  and stops after 20 digits of the fraction. The exponent forms that JavaScript uses
  from \<open>10\<^sup>2\<^sup>1\<close> on and below \<open>10\<^sup>-\<^sup>6\<close> are not modelled.
\<close>

fun fractionDigits :: "nat \<Rightarrow> int \<Rightarrow> int \<Rightarrow> string" where
  "fractionDigits 0 rest d = []"
| "fractionDigits (Suc fuel) rest d =
     (if rest = 0 then []
      else natToString (nat (rest * 10 div d)) @ fractionDigits fuel (rest * 10 mod d) d)"

definition numberToString :: "rat \<Rightarrow> string" where
  "numberToString r =
     (let (n, d) = quotient_of r;
          body = natToString (nat (\<bar>n\<bar> div d))
                   @ (if d = 1 then [] else ''.'' @ fractionDigits 20 (\<bar>n\<bar> mod d) d)
      in if n < 0 then ''-'' @ body else body)"

section \<open>Configuration registry (lib/pipeline-config.js)\<close>

definition normalizeKey :: "string \<Rightarrow> string" where
  "normalizeKey s = toLowerCase (trim s)"

definition normalizeNameToken :: "string \<Rightarrow> string" where
  "normalizeNameToken s = dropWhile (\<lambda>c. c = CHR ''-'') s"

text \<open>
  A positional slot and a parameter as the registry stores them. The description texts
  only feed the help output and are left out.
\<close>

record positionalSpec =
  name :: string
  required :: bool
  varargs :: bool

record paramSpec =
  longname :: string
  longnameLower :: string
  shortname :: "string option"
  envname :: "string option"
  default_value :: jsval
  expectsValue :: bool
  generateNegative :: bool
  required_param :: bool
  mutable :: bool

text \<open>
  The argument of \<^verbatim>\<open>registerParam\<close>: an absent property is \<open>None\<close>, and
  \<^verbatim>\<open>expectsValue\<close> and \<^verbatim>\<open>required\<close> count only when they are \<^verbatim>\<open>true\<close>.
\<close>

record paramSpecArg =
  arg_longname :: string
  arg_shortname :: "string option"
  arg_envname :: "string option"
  arg_default :: "jsval option"
  arg_expectsValue :: bool
  arg_generateNegative :: "bool option"
  arg_required :: bool
  arg_mutable :: "bool option"

datatype configError =
    LongnameMissing
  | DuplicateLongname string
  | ShortnameNotOneChar string
  | ShortnameReserved string
  | ShortnameUsed string
  | SchemaAlreadyRegistered
  | VarargsNotLast

text \<open>
  The module state: the two parameter registries, the positional schema, the resolved
  base values (\<^verbatim>\<open>cliBase\<close>) and the status flags (\<^verbatim>\<open>cliStatus\<close>).
\<close>

record configState =
  paramRegistry :: "paramSpec list"
  shortParamsRegistry :: "(string \<times> string) list"
  positionalsSchema :: "positionalSpec list option"
  params :: jsobj
  positionals :: "jsval list"
  namedPositionals :: jsobj
  isDirty :: bool
  isError :: bool
  showHelp :: bool

definition initialConfigState :: configState where
  "initialConfigState =
     \<lparr>paramRegistry = [], shortParamsRegistry = [], positionalsSchema = None,
      params = [], positionals = [], namedPositionals = [],
      isDirty = True, isError = False, showHelp = False\<rparr>"

definition registerPositionals :: "positionalSpec list \<Rightarrow> configState \<Rightarrow> configError + configState" where
  "registerPositionals schema st =
     (if positionalsSchema st \<noteq> None then Inl SchemaAlreadyRegistered
      else if list_ex varargs (butlast schema) then Inl VarargsNotLast
      else Inr (st\<lparr>positionalsSchema := Some schema, isDirty := True\<rparr>))"

definition registerParam :: "paramSpecArg \<Rightarrow> configState \<Rightarrow> configError + configState" where
  "registerParam spec st =
     (let lname = normalizeNameToken (arg_longname spec);
          keyLower = normalizeKey lname;
          short = map_option toLowerCase (arg_shortname spec);
          ev = arg_expectsValue spec;
          normalized = \<lparr>longname = lname, longnameLower = keyLower, shortname = short,
                        envname = (case arg_envname spec of
                                     Some e \<Rightarrow> (if e = [] then None else Some e)
                                   | None \<Rightarrow> None),
                        default_value = (case arg_default spec of Some d \<Rightarrow> d | None \<Rightarrow> JUndefined),
                        expectsValue = ev,
                        generateNegative = (case arg_generateNegative spec of
                                              Some g \<Rightarrow> g | None \<Rightarrow> \<not> ev),
                        required_param = arg_required spec,
                        mutable = (case arg_mutable spec of Some m \<Rightarrow> m | None \<Rightarrow> True)\<rparr>
      in if arg_longname spec = [] then Inl LongnameMissing
         else if keyLower \<in> set (map longnameLower (paramRegistry st)) then Inl (DuplicateLongname lname)
         else (case arg_shortname spec of
                 None \<Rightarrow> Inr (st\<lparr>paramRegistry := paramRegistry st @ [normalized], isDirty := True\<rparr>)
               | Some raw \<Rightarrow>
                   if length raw \<noteq> 1 then Inl (ShortnameNotOneChar lname)
                   else if toLowerCase raw = ''h'' \<and> keyLower \<noteq> ''help'' then Inl (ShortnameReserved lname)
                   else if toLowerCase raw \<in> set (map fst (shortParamsRegistry st)) then Inl (ShortnameUsed lname)
                   else Inr (st\<lparr>paramRegistry := paramRegistry st @ [normalized],
                               shortParamsRegistry := shortParamsRegistry st @ [(toLowerCase raw, keyLower)],
                               isDirty := True\<rparr>)))"

text \<open>
  \<^verbatim>\<open>applyPositionalsSchema\<close>: the loop over the schema, with the index of the next
  positional, the names bound so far and whether a required slot was found missing (the
  source then sets both \<^verbatim>\<open>showHelp\<close> and \<^verbatim>\<open>isError\<close>).
\<close>

fun applySchemaLoop :: "positionalSpec list \<Rightarrow> jsval list \<Rightarrow> nat \<Rightarrow> jsobj \<Rightarrow> bool \<Rightarrow> jsobj \<times> bool" where
  "applySchemaLoop [] positionalsArr idx named missing = (named, missing)"
| "applySchemaLoop (spec # specs) positionalsArr idx named missing =
     (if varargs spec
      then (let rest = drop idx positionalsArr
            in (objSet (name spec) (JArr rest) named,
                missing \<or> (required spec \<and> rest = [])))
      else (let v = (if idx < length positionalsArr then positionalsArr ! idx else JUndefined)
            in applySchemaLoop specs positionalsArr (idx + 1) (objSet (name spec) v named)
                 (missing \<or> (required spec \<and> v = JUndefined))))"

definition applyPositionalsSchema :: "positionalSpec list option \<Rightarrow> jsval list \<Rightarrow> jsobj \<times> bool" where
  "applyPositionalsSchema schema positionalsArr =
     (case schema of
        None \<Rightarrow> ([], False)
      | Some specs \<Rightarrow> applySchemaLoop specs positionalsArr 0 [] False)"

section \<open>Argument parsing (the minimist call of parseCLIOnce)\<close>

text \<open>
  \<^verbatim>\<open>parseCLIOnce\<close> hands \<^verbatim>\<open>process.argv.slice(2)\<close> to the library minimist (1.2.8) with
  the options \<^verbatim>\<open>boolean\<close>, \<^verbatim>\<open>string\<close>, \<^verbatim>\<open>alias\<close>, \<^verbatim>\<open>"--": true\<close> and
  \<^verbatim>\<open>stopEarly: false\<close>. The model follows the library's \<^verbatim>\<open>index.js\<close> on these inputs:
  long options (\<^verbatim>\<open>--k=v\<close>, \<^verbatim>\<open>--no-k\<close>, \<^verbatim>\<open>--k\<close> with or without a following value),
  positionals and the \<^verbatim>\<open>--\<close> separator. It returns \<open>None\<close> where it does not follow the
  library: a single-dash option group, a key with a dot (the library nests it), a key
  that names a property of \<^verbatim>\<open>Object.prototype\<close>, and a \<^verbatim>\<open>--=v\<close> argument (the
  library throws). An argument is taken to hold no line terminator.
\<close>

record minimistFlags =
  bools :: "string list"
  strings :: "string list"
  aliases :: "(string \<times> string list) list"

definition buildAliases :: "(string \<times> string) list \<Rightarrow> (string \<times> string list) list" where
  "buildAliases alias = foldl (\<lambda>m (key, a). objSet a [key] (objSet key [a] m)) [] alias"

definition aliasesOf :: "minimistFlags \<Rightarrow> string \<Rightarrow> string list" where
  "aliasesOf fl key = (case map_of (aliases fl) key of Some xs \<Rightarrow> xs | None \<Rightarrow> [])"

definition buildFlags :: "string list \<Rightarrow> string list \<Rightarrow> (string \<times> string) list \<Rightarrow> minimistFlags" where
  "buildFlags boolean string alias =
     (let al = buildAliases alias
      in \<lparr>bools = filter (\<lambda>k. k \<noteq> []) boolean,
          strings = concat (map (\<lambda>key. key # (case map_of al key of Some xs \<Rightarrow> xs | None \<Rightarrow> []))
                                (filter (\<lambda>k. k \<noteq> []) string)),
          aliases = al\<rparr>)"

definition aliasIsBoolean :: "minimistFlags \<Rightarrow> string \<Rightarrow> bool" where
  "aliasIsBoolean fl key = list_ex (\<lambda>x. x \<in> set (bools fl)) (aliasesOf fl key)"

definition dropSign :: "string \<Rightarrow> string" where
  "dropSign s = (case s of [] \<Rightarrow> [] | c # r \<Rightarrow> if c = CHR ''-'' \<or> c = CHR ''+'' then r else s)"

definition exponentOk :: "string \<Rightarrow> bool" where
  "exponentOk r =
     (case r of
        [] \<Rightarrow> True
      | c # r' \<Rightarrow> c = CHR ''e'' \<and> dropSign r' \<noteq> [] \<and> list_all isDigit (dropSign r'))"

text \<open>The library's \<^verbatim>\<open>isNumber\<close> on a string: its hexadecimal and its decimal pattern.\<close>

definition isNumberString :: "string \<Rightarrow> bool" where
  "isNumberString s =
     ((case s of
         z # x # ds \<Rightarrow> z = CHR ''0'' \<and> (x = CHR ''x'' \<or> x = CHR ''X'') \<and> ds \<noteq> [] \<and> list_all isHexDigit ds
       | _ \<Rightarrow> False)
      \<or> (let s1 = dropSign s; r1 = dropWhile isDigit s1
          in if takeWhile isDigit s1 \<noteq> []
             then (case r1 of
                     [] \<Rightarrow> True
                   | c # r2 \<Rightarrow> if c = CHR ''.'' then exponentOk (dropWhile isDigit r2) else exponentOk r1)
             else (case r1 of
                     [] \<Rightarrow> False
                   | c # r2 \<Rightarrow> c = CHR ''.'' \<and> takeWhile isDigit r2 \<noteq> [] \<and> exponentOk (dropWhile isDigit r2))))"

fun hexDigitValue :: "char \<Rightarrow> nat" where
  "hexDigitValue c =
     (case map_of (zip ''0123456789abcdefABCDEF''
                       [0, 1, 2, 3, 4, 5, 6, 7, 8, 9, 10, 11, 12, 13, 14, 15, 10, 11, 12, 13, 14, 15]) c of
        Some d \<Rightarrow> d | None \<Rightarrow> 0)"

text \<open>
  \<^verbatim>\<open>Number(s)\<close> for a string that \<^verbatim>\<open>isNumber\<close> accepts, as an exact rational (the
  library gets the nearest double).
\<close>

definition numberOfString :: "string \<Rightarrow> rat" where
  "numberOfString s =
     (if take 2 s = ''0x'' \<or> take 2 s = ''0X''
      then of_nat (foldl (\<lambda>acc c. 16 * acc + hexDigitValue c) 0 (drop 2 s))
      else (let sign = (if take 1 s = ''-'' then - 1 else 1);
                body = dropSign s;
                ip = takeWhile isDigit body;
                afterInt = dropWhile isDigit body;
                fp = (if take 1 afterInt = ''.'' then takeWhile isDigit (drop 1 afterInt) else []);
                afterFrac = (if take 1 afterInt = ''.'' then dropWhile isDigit (drop 1 afterInt) else afterInt);
                expDigits = dropSign (drop 1 afterFrac);
                mantissa = of_nat (digitsToNat ip) + of_nat (digitsToNat fp) / 10 ^ length fp
            in if take 2 afterFrac = ''e-''
               then sign * mantissa / 10 ^ digitsToNat expDigits
               else sign * mantissa * 10 ^ digitsToNat expDigits))"

definition coerceValue :: "minimistFlags \<Rightarrow> string \<Rightarrow> jsval \<Rightarrow> jsval" where
  "coerceValue fl key val =
     (case val of
        JStr s \<Rightarrow> if key \<notin> set (strings fl) \<and> isNumberString s then JNum (numberOfString s) else val
      | _ \<Rightarrow> val)"

definition objectPrototypeNames :: "string list" where
  "objectPrototypeNames =
     [''constructor'', ''__proto__'', ''toString'', ''toLocaleString'', ''valueOf'',
      ''hasOwnProperty'', ''isPrototypeOf'', ''propertyIsEnumerable'', ''__defineGetter__'',
      ''__defineSetter__'', ''__lookupGetter__'', ''__lookupSetter__'']"

definition supportedKey :: "string \<Rightarrow> bool" where
  "supportedKey key = (CHR ''.'' \<notin> set key \<and> key \<notin> set objectPrototypeNames)"

fun typeofBoolean :: "jsval \<Rightarrow> bool" where
  "typeofBoolean (JBool b) = True"
| "typeofBoolean _ = False"

definition setKey :: "minimistFlags \<Rightarrow> string \<Rightarrow> jsval \<Rightarrow> jsobj \<Rightarrow> jsobj" where
  "setKey fl key v argv =
     (case map_of argv key of
        None \<Rightarrow> objSet key v argv
      | Some cur \<Rightarrow>
          if cur = JUndefined \<or> key \<in> set (bools fl) \<or> typeofBoolean cur then objSet key v argv
          else (case cur of
                  JArr xs \<Rightarrow> objSet key (JArr (xs @ [v])) argv
                | _ \<Rightarrow> objSet key (JArr [cur, v]) argv))"

definition setArg :: "minimistFlags \<Rightarrow> string \<Rightarrow> jsval \<Rightarrow> jsobj \<Rightarrow> jsobj option" where
  "setArg fl key val argv =
     (if \<not> list_all supportedKey (key # aliasesOf fl key) then None
      else Some (foldl (\<lambda>a x. setKey fl x (coerceValue fl key val) a)
                   (setKey fl key (coerceValue fl key val) argv) (aliasesOf fl key)))"

text \<open>The pattern \<^verbatim>\<open>/^(-|--)[^-]/\<close> on the argument after an option.\<close>

definition looksLikeOption :: "string \<Rightarrow> bool" where
  "looksLikeOption s =
     (case s of
        c # d # r \<Rightarrow> c = CHR ''-'' \<and> (d \<noteq> CHR ''-'' \<or> (case r of [] \<Rightarrow> False | e # _ \<Rightarrow> e \<noteq> CHR ''-''))
      | _ \<Rightarrow> False)"

text \<open>
  One round of the library's loop over the arguments: the argument, the one after it if
  any, and the result so far. The boolean of the result tells that the next argument was
  consumed as the option's value.
\<close>

definition parseArg :: "minimistFlags \<Rightarrow> string \<Rightarrow> string option \<Rightarrow> jsobj \<Rightarrow> (jsobj \<times> bool) option" where
  "parseArg fl arg next argv =
     (if take 2 arg = ''--'' \<and> CHR ''='' \<in> set (drop 3 arg)
      then (let key = takeWhile (\<lambda>c. c \<noteq> CHR ''='') (drop 2 arg);
                v = drop (length key + 3) arg
            in if key = [] then None
               else map_option (\<lambda>a. (a, False))
                      (setArg fl key (if key \<in> set (bools fl) then JBool (v \<noteq> ''false'') else JStr v) argv))
      else if take 5 arg = ''--no-'' \<and> 5 < length arg
      then map_option (\<lambda>a. (a, False)) (setArg fl (drop 5 arg) (JBool False) argv)
      else if take 2 arg = ''--'' \<and> 2 < length arg
      then (let key = drop 2 arg;
                bare = (if key \<in> set (strings fl) then JStr [] else JBool True)
            in case next of
                 None \<Rightarrow> map_option (\<lambda>a. (a, False)) (setArg fl key bare argv)
               | Some n \<Rightarrow>
                   if \<not> looksLikeOption n \<and> key \<notin> set (bools fl) \<and> \<not> aliasIsBoolean fl key
                   then map_option (\<lambda>a. (a, True)) (setArg fl key (JStr n) argv)
                   else if n = ''true'' \<or> n = ''false''
                   then map_option (\<lambda>a. (a, True)) (setArg fl key (JBool (n = ''true'')) argv)
                   else map_option (\<lambda>a. (a, False)) (setArg fl key bare argv))
      else if (case arg of c # d # _ \<Rightarrow> c = CHR ''-'' \<and> d \<noteq> CHR ''-'' | _ \<Rightarrow> False)
      then None
      else (case map_of argv ''_'' of
              Some (JArr xs) \<Rightarrow>
                Some (objSet ''_'' (JArr (xs @ [if ''_'' \<in> set (strings fl) \<or> \<not> isNumberString arg
                                                then JStr arg else JNum (numberOfString arg)])) argv,
                      False)
            | _ \<Rightarrow> None))"

function parseLoop :: "minimistFlags \<Rightarrow> string list \<Rightarrow> jsobj \<Rightarrow> jsobj option" where
  "parseLoop fl [] argv = Some argv"
| "parseLoop fl (arg # args) argv =
     (case parseArg fl arg (case args of [] \<Rightarrow> None | n # _ \<Rightarrow> Some n) argv of
        None \<Rightarrow> None
      | Some (argv', consumed) \<Rightarrow> parseLoop fl (if consumed then tl args else args) argv')"
  by pat_completeness auto
termination
  by (relation "measure (\<lambda>(fl, args, argv). length args)") auto

fun initBools :: "minimistFlags \<Rightarrow> string list \<Rightarrow> jsobj \<Rightarrow> jsobj option" where
  "initBools fl [] argv = Some argv"
| "initBools fl (key # keys) argv =
     (case setArg fl key (JBool False) argv of
        None \<Rightarrow> None
      | Some argv' \<Rightarrow> initBools fl keys argv')"

definition minimist :: "string list \<Rightarrow> string list \<Rightarrow> string list \<Rightarrow> (string \<times> string) list \<Rightarrow> jsobj option" where
  "minimist args boolean string alias =
     (let fl = buildFlags boolean string alias;
          flagArgs = takeWhile (\<lambda>a. a \<noteq> ''--'') args;
          notFlags = drop 1 (dropWhile (\<lambda>a. a \<noteq> ''--'') args)
      in case initBools fl (bools fl) [(''_'', JArr [])] of
           None \<Rightarrow> None
         | Some argv0 \<Rightarrow>
             (case parseLoop fl flagArgs argv0 of
                None \<Rightarrow> None
              | Some argv1 \<Rightarrow> Some (objSet ''--'' (JArr (map JStr notFlags)) argv1)))"

section \<open>Resolving parameters (parseCLIOnce, loadCLI)\<close>

text \<open>
  Steps 3.1 to 3.6 of \<^verbatim>\<open>parseCLIOnce\<close> for one parameter: the resolved value, and
  whether a usage error was flagged (a value-expecting option without a value, or a
  required parameter left undefined). The environment is the list of set variables.
\<close>

definition resolveParam :: "jsobj \<Rightarrow> (string \<times> string) list \<Rightarrow> paramSpec \<Rightarrow> jsval \<times> bool" where
  "resolveParam parsedArgs env p =
     (let (value1, has1) = (case map_of parsedArgs (longname p) of
                              Some v \<Rightarrow> (v, True)
                            | None \<Rightarrow> (JUndefined, False));
          (value2, hasCliValue) =
             (if \<not> expectsValue p \<and> generateNegative p
                 \<and> getProp (JObj parsedArgs) (''no-'' @ longname p) = JBool True
              then (JBool False, True) else (value1, has1));
          missingValue = (hasCliValue \<and> expectsValue p \<and> (value2 = JBool True \<or> value2 = JUndefined));
          value4 = (if hasCliValue then value2
                    else (case envname p of
                            None \<Rightarrow> value2
                          | Some e \<Rightarrow> (case map_of env e of None \<Rightarrow> value2 | Some s \<Rightarrow> JStr s)));
          value5 = (if value4 = JUndefined then default_value p else value4)
      in (value5, missingValue \<or> (required_param p \<and> value5 = JUndefined)))"

definition parseCLIOnce :: "string list \<Rightarrow> (string \<times> string) list \<Rightarrow> configState \<Rightarrow> configState option" where
  "parseCLIOnce argv env st =
     (if \<not> isDirty st then Some st
      else
        (let reg = paramRegistry st;
             boolean = ''help'' # concat (map (\<lambda>p. if expectsValue p then []
                          else longname p # (if generateNegative p then [''no-'' @ longname p] else [])) reg);
             string = map longname (filter expectsValue reg);
             alias = foldl (\<lambda>a p. case shortname p of Some s \<Rightarrow> objSet (longname p) s a | None \<Rightarrow> a)
                       [(''help'', ''h'')] reg
         in case minimist argv boolean string alias of
              None \<Rightarrow> None
            | Some parsedArgs \<Rightarrow>
                (let resolved = map (resolveParam parsedArgs env) reg;
                     params' = foldl (\<lambda>m (p, r). objSet (longnameLower p) (fst r) m) (params st)
                                 (zip reg resolved);
                     paramError = list_ex snd resolved;
                     pos = (case map_of parsedArgs ''_'' of Some (JArr xs) \<Rightarrow> xs | _ \<Rightarrow> []);
                     (named, missing) = applyPositionalsSchema (positionalsSchema st) pos;
                     help = truthy (getProp (JObj parsedArgs) ''help'')
                 in Some (st\<lparr>params := params', positionals := pos, namedPositionals := named,
                             isDirty := False,
                             isError := isError st \<or> paramError \<or> missing,
                             showHelp := showHelp st \<or> paramError \<or> missing \<or> help\<rparr>))))"

text \<open>
  \<^verbatim>\<open>loadCLI\<close> parses and, when help is due, prints it and ends the process:
  \<open>Inl code\<close> is \<^verbatim>\<open>process.exit(code)\<close>, \<open>Inr\<close> the state behind the accessor it returns.
\<close>

definition loadCLI :: "string list \<Rightarrow> (string \<times> string) list \<Rightarrow> configState \<Rightarrow> (int + configState) option" where
  "loadCLI argv env st =
     (case parseCLIOnce argv env st of
        None \<Rightarrow> None
      | Some st' \<Rightarrow> Some (if showHelp st' then Inl (if isError st' then - 1 else 0) else Inr st'))"

fun joinWith :: "char \<Rightarrow> string list \<Rightarrow> string" where
  "joinWith sep [] = []"
| "joinWith sep [p] = p"
| "joinWith sep (p # q # ps) = p @ sep # joinWith sep (q # ps)"

text \<open>
  \<^verbatim>\<open>get(path)\<close> of the accessor, on the base values. The runtime override layer that sits
  in front of it only answers for paths that \<^verbatim>\<open>overrideValue\<close> was called on, and no
  module modelled here calls it.
\<close>

definition cliGet :: "configState \<Rightarrow> string \<Rightarrow> jsval" where
  "cliGet st pathStr =
     (case splitOn CHR ''.'' pathStr of
        [] \<Rightarrow> JUndefined
      | h # rest \<Rightarrow>
          if normalizeKey h \<in> set [''param'', ''override'', ''flag'']
          then (if rest = [] then JUndefined
                else getProp (JObj (params st)) (normalizeKey (joinWith CHR ''.'' rest)))
          else if normalizeKey h = ''positionals''
          then (case rest of
                  [] \<Rightarrow> JArr (positionals st)
                | t # _ \<Rightarrow>
                    if t \<noteq> [] \<and> list_all isDigit t
                    then (if digitsToNat t < length (positionals st)
                          then positionals st ! digitsToNat t else JUndefined)
                    else (case find (\<lambda>kv. normalizeKey (fst kv) = normalizeKey t) (namedPositionals st) of
                            Some kv \<Rightarrow> snd kv
                          | None \<Rightarrow> JUndefined))
          else JUndefined)"

section \<open>Module start-up\<close>

text \<open>
  Importing the library registers the parameters of the logging, core and stream files,
  in that order, each file calling \<^verbatim>\<open>loadCLI()\<close> after its registrations; a module then
  registers its own and calls \<^verbatim>\<open>loadCLI()\<close> again. A start-up either throws out of a
  registration, exits from \<^verbatim>\<open>loadCLI\<close>, leaves the modelled part of the argument
  parser, or goes on with a state.
\<close>

datatype 'a startup = Throws configError | Exits int | NotModelled | Running 'a

fun andThen :: "'a startup \<Rightarrow> ('a \<Rightarrow> 'b startup) \<Rightarrow> 'b startup" where
  "andThen (Running x) f = f x"
| "andThen (Throws e) f = Throws e"
| "andThen (Exits c) f = Exits c"
| "andThen NotModelled f = NotModelled"

fun registerParams :: "paramSpecArg list \<Rightarrow> configState \<Rightarrow> configError + configState" where
  "registerParams [] st = Inr st"
| "registerParams (spec # specs) st =
     (case registerParam spec st of
        Inl e \<Rightarrow> Inl e
      | Inr st' \<Rightarrow> registerParams specs st')"

definition loadCLIStep :: "string list \<Rightarrow> (string \<times> string) list \<Rightarrow> configState \<Rightarrow> configState startup" where
  "loadCLIStep argv env st =
     (case loadCLI argv env st of
        None \<Rightarrow> NotModelled
      | Some (Inl code) \<Rightarrow> Exits code
      | Some (Inr st') \<Rightarrow> Running st')"

definition registerAndLoad ::
    "paramSpecArg list \<Rightarrow> string list \<Rightarrow> (string \<times> string) list \<Rightarrow> configState \<Rightarrow> configState startup" where
  "registerAndLoad specs argv env st =
     (case registerParams specs st of
        Inl e \<Rightarrow> Throws e
      | Inr st' \<Rightarrow> loadCLIStep argv env st')"

text \<open>
  A \<^verbatim>\<open>registerParam\<close> call of the source that gives a long name, an environment variable,
  possibly a default, \<^verbatim>\<open>expectsValue\<close>, possibly \<^verbatim>\<open>generateNegative\<close>, and
  \<^verbatim>\<open>required\<close>; none of the calls modelled gives a short name or \<^verbatim>\<open>mutable\<close>.
\<close>

definition paramCall ::
    "string \<Rightarrow> string \<Rightarrow> jsval option \<Rightarrow> bool \<Rightarrow> bool option \<Rightarrow> bool \<Rightarrow> paramSpecArg" where
  "paramCall long env dflt ev gn req =
     \<lparr>arg_longname = long, arg_shortname = None, arg_envname = Some env, arg_default = dflt,
      arg_expectsValue = ev, arg_generateNegative = gn, arg_required = req, arg_mutable = None\<rparr>"

definition loggingParams :: "paramSpecArg list" where
  "loggingParams =
     [paramCall ''verbose-log-level'' ''TMCP_VERBOSE_LOG_LEVEL'' (Some (JStr ''warn'')) False None False,
      paramCall ''verbose'' ''TMCP_VERBOSE'' (Some (JBool False)) False (Some True) False,
      paramCall ''verbose-input'' ''TMCP_VERBOSE_INPUT'' (Some (JBool False)) False (Some True) False,
      paramCall ''verbose-output'' ''TMCP_VERBOSE_OUTPUT'' (Some (JBool False)) False (Some True) False]"

definition coreParams :: "paramSpecArg list" where
  "coreParams = [paramCall ''do-tag'' ''TMCP_DO_TAG'' (Some (JBool True)) False None False]"

definition streamParams :: "paramSpecArg list" where
  "streamParams =
     [paramCall ''in-protocol'' ''TMCP_IN_PROTOCOL'' (Some (JStr ''ndjson'')) True None False,
      paramCall ''out-protocol'' ''TMCP_OUT_PROTOCOL'' (Some (JStr ''ndjson'')) True None False,
      paramCall ''exit-on-close'' ''TMCP_EXIT_ON_CLOSE'' (Some (JStr [])) True None False,
      paramCall ''retry'' ''TMCP_RETRY'' (Some (JStr [])) True None False,
      paramCall ''exit-instead-of-kill'' ''TMCP_EXIT_INSTEAD_OF_KILL'' (Some (JBool False)) False (Some True) False]"

definition libraryStartup :: "string list \<Rightarrow> (string \<times> string) list \<Rightarrow> configState startup" where
  "libraryStartup argv env =
     andThen (registerAndLoad loggingParams argv env initialConfigState)
       (\<lambda>st1. andThen (registerAndLoad coreParams argv env st1)
          (\<lambda>st2. registerAndLoad streamParams argv env st2))"

text \<open>
  A module that takes positionals registers its schema after the import and calls
  \<^verbatim>\<open>loadCLI()\<close>; the reducer and the dedup module declare one required slot.
\<close>

definition moduleStartup ::
    "paramSpecArg list \<Rightarrow> positionalSpec list \<Rightarrow> string list \<Rightarrow> (string \<times> string) list \<Rightarrow> configState startup" where
  "moduleStartup specs schema argv env =
     andThen (libraryStartup argv env)
       (\<lambda>st. case registerParams specs st of
                Inl e \<Rightarrow> Throws e
              | Inr st1 \<Rightarrow>
                  (case registerPositionals schema st1 of
                     Inl e \<Rightarrow> Throws e
                   | Inr st2 \<Rightarrow> loadCLIStep argv env st2))"

definition configFilePositionals :: "positionalSpec list" where
  "configFilePositionals = [\<lparr>name = ''config_file'', required = True, varargs = False\<rparr>]"

section \<open>Channel policies and writing (lib/pipeline-stream.js)\<close>

definition parseBooleanLike :: "string \<Rightarrow> bool option" where
  "parseBooleanLike raw =
     (let v = toLowerCase raw
      in if v \<in> set [''true'', ''1'', ''yes'', ''on''] then Some True
         else if v \<in> set [''false'', ''0'', ''no'', ''off''] then Some False
         else None)"

text \<open>
  One comma-separated entry of \<^verbatim>\<open>--exit-on-close\<close> or \<^verbatim>\<open>--retry\<close>: the channel and
  its value, or \<open>None\<close> for an entry that is skipped. \<^verbatim>\<open>split("=", 2)\<close> keeps the first
  two pieces.
\<close>

definition parseSpecEntry :: "string \<Rightarrow> (string \<times> bool) option" where
  "parseSpecEntry part =
     (if trim part = [] then None
      else (case splitOn CHR ''='' (trim part) of
              [] \<Rightarrow> None
            | rawName # pieces \<Rightarrow>
                if trim rawName = [] then None
                else (case pieces of
                        [] \<Rightarrow> Some (trim rawName, True)
                      | rawVal # _ \<Rightarrow> map_option (Pair (trim rawName)) (parseBooleanLike (trim rawVal)))))"

definition parseSpec :: "jsval \<Rightarrow> (string \<times> bool) list \<Rightarrow> (string \<times> bool) list" where
  "parseSpec spec targetMap =
     (case spec of
        JStr s \<Rightarrow>
          if s = [] then targetMap
          else foldl (\<lambda>m part. case parseSpecEntry part of
                                  None \<Rightarrow> m
                                | Some (n, b) \<Rightarrow> objSet n b m)
                 targetMap (splitOn CHR '','' s)
      | _ \<Rightarrow> targetMap)"

record streamState =
  channelExitOnCloseOverrides :: "(string \<times> bool) list"
  channelRetryOverrides :: "(string \<times> bool) list"
  channelPoliciesLoaded :: bool

definition initialStreamState :: streamState where
  "initialStreamState =
     \<lparr>channelExitOnCloseOverrides = [], channelRetryOverrides = [], channelPoliciesLoaded = False\<rparr>"

definition parseChannelPoliciesOnce :: "configState \<Rightarrow> streamState \<Rightarrow> streamState" where
  "parseChannelPoliciesOnce cli st =
     (if channelPoliciesLoaded st then st
      else \<lparr>channelExitOnCloseOverrides =
               parseSpec (cliGet cli ''param.exit-on-close'') (channelExitOnCloseOverrides st),
            channelRetryOverrides = parseSpec (cliGet cli ''param.retry'') (channelRetryOverrides st),
            channelPoliciesLoaded = True\<rparr>)"

text \<open>
  The second argument of \<^verbatim>\<open>safeRead\<close> and \<^verbatim>\<open>safeWrite\<close>: nothing, one of the
  standard streams, a file descriptor, a path, or another stream object.
\<close>

datatype fdOrStream =
    TargetUndefined
  | TargetNull
  | ProcessStdin
  | ProcessStdout
  | ProcessStderr
  | Fd int
  | Path string
  | Stream nat

datatype direction = Read | Write

definition isStdoutLike :: "fdOrStream \<Rightarrow> bool" where
  "isStdoutLike target = (target \<in> set [TargetUndefined, TargetNull, ProcessStdout, Fd 1])"

definition isStderrLike :: "fdOrStream \<Rightarrow> bool" where
  "isStderrLike target = (target \<in> set [ProcessStderr, Fd 2])"

definition isStdinLike :: "fdOrStream \<Rightarrow> bool" where
  "isStdinLike target = (target \<in> set [TargetUndefined, TargetNull, ProcessStdin, Fd 0])"

definition inferChannelId :: "fdOrStream \<Rightarrow> jsval \<Rightarrow> direction \<Rightarrow> string option" where
  "inferChannelId target explicitChannelId dir =
     (case explicitChannelId of
        JStr s \<Rightarrow>
          if s \<noteq> [] then Some s
          else if dir = Read then (if isStdinLike target then Some ''stdin'' else None)
          else if isStdoutLike target then Some ''stdout''
          else if isStderrLike target then Some ''stderr''
          else None
      | _ \<Rightarrow>
          if dir = Read then (if isStdinLike target then Some ''stdin'' else None)
          else if isStdoutLike target then Some ''stdout''
          else if isStderrLike target then Some ''stderr''
          else None)"

text \<open>
  The options object of a call, under the names \<^verbatim>\<open>resolveChannelPolicies\<close> gives its
  properties; an absent property is \<open>JUndefined\<close>.
\<close>

record channelOptions =
  explicitChannelId :: jsval
  optExitOnClose :: jsval
  optRetry :: jsval
  linger :: jsval

record channelPolicy =
  channelId :: "string option"
  exitOnClose :: bool
  retry :: bool

definition resolveChannelPolicies ::
    "configState \<Rightarrow> streamState \<Rightarrow> direction \<Rightarrow> fdOrStream \<Rightarrow> channelOptions \<Rightarrow> channelPolicy \<times> streamState" where
  "resolveChannelPolicies cli st0 dir target options =
     (let st = parseChannelPoliciesOnce cli st0;
          cid = inferChannelId target (explicitChannelId options) dir;
          exit0 = (if dir = Read then cid = Some ''stdin''
                   else cid = Some ''stdout'' \<or> cid = Some ''stderr'');
          exit1 = (case optExitOnClose options of
                     JBool b \<Rightarrow> b
                   | _ \<Rightarrow> (case linger options of JBool l \<Rightarrow> \<not> l | _ \<Rightarrow> exit0));
          retry1 = (case optRetry options of JBool r \<Rightarrow> r | _ \<Rightarrow> False);
          exit2 = (case cid of
                     None \<Rightarrow> exit1
                   | Some c \<Rightarrow> (case map_of (channelExitOnCloseOverrides st) c of
                                  Some b \<Rightarrow> b | None \<Rightarrow> exit1));
          retry2 = (case cid of
                      None \<Rightarrow> retry1
                    | Some c \<Rightarrow> (case map_of (channelRetryOverrides st) c of
                                   Some b \<Rightarrow> b | None \<Rightarrow> retry1))
      in (\<lparr>channelId = cid, exitOnClose = exit2, retry = retry2\<rparr>, st))"

text \<open>
  \<^verbatim>\<open>safeWrite\<close> normalizes the object it is given and hands the result to the encoder;
  the model is that canonical object. Encoding, the transport and its errors are not
  modelled. \<^verbatim>\<open>normalizeObject\<close> works in place, so the caller's object is the canonical
  one from then on.
\<close>

definition safeWrite :: "jsval \<Rightarrow> jsval" where
  "safeWrite obj = normalizeObject obj"

section \<open>Conversions and operators of the language\<close>

fun joinStrings :: "string \<Rightarrow> string list \<Rightarrow> string" where
  "joinStrings sep [] = []"
| "joinStrings sep [p] = p"
| "joinStrings sep (p # q # ps) = p @ sep @ joinStrings sep (q # ps)"

text \<open>\<^verbatim>\<open>String(v)\<close>; an array joins its elements with commas.\<close>

fun jsToString :: "jsval \<Rightarrow> string" where
  "jsToString JUndefined = ''undefined''"
| "jsToString JNull = ''null''"
| "jsToString (JBool b) = (if b then ''true'' else ''false'')"
| "jsToString (JNum r) = numberToString r"
| "jsToString (JStr s) = s"
| "jsToString (JArr xs) =
     joinStrings '','' (map (\<lambda>x. if x = JUndefined \<or> x = JNull then [] else jsToString x) xs)"
| "jsToString (JObj al) = ''[object Object]''"

text \<open>
  \<^verbatim>\<open>Number(s)\<close> for a string, \<open>None\<close> standing for \<^verbatim>\<open>NaN\<close>: the string without the
  white space around it is empty (zero), a decimal literal with an optional sign,
  fraction and exponent, or a hexadecimal, octal or binary literal. The decimal and the
  hexadecimal literals are those that \<^verbatim>\<open>isNumberString\<close> accepts, with the letters in
  either case. The spellings \<^verbatim>\<open>Infinity\<close>, \<^verbatim>\<open>+Infinity\<close> and \<^verbatim>\<open>-Infinity\<close> denote no
  rational, and the model has \<open>None\<close> for them too.
\<close>

definition radixLiteral :: "char \<Rightarrow> string \<Rightarrow> string \<Rightarrow> rat option" where
  "radixLiteral letter digits s =
     (case s of
        z # x # ds \<Rightarrow>
          if z = CHR ''0'' \<and> x = letter \<and> ds \<noteq> [] \<and> list_all (\<lambda>c. c \<in> set digits) ds
          then Some (of_nat (foldl (\<lambda>acc c. length digits * acc + digitValue c) 0 ds))
          else None
      | _ \<Rightarrow> None)"

definition stringToNumber :: "string \<Rightarrow> rat option" where
  "stringToNumber raw =
     (let s = toLowerCase (trim raw)
      in if s = [] then Some 0
         else if isNumberString s then Some (numberOfString s)
         else if radixLiteral CHR ''o'' ''01234567'' s \<noteq> None then radixLiteral CHR ''o'' ''01234567'' s
         else radixLiteral CHR ''b'' ''01'' s)"

text \<open>\<^verbatim>\<open>Number(v)\<close>, \<open>None\<close> standing for \<^verbatim>\<open>NaN\<close>.\<close>

fun toNumber :: "jsval \<Rightarrow> rat option" where
  "toNumber JUndefined = None"
| "toNumber JNull = Some 0"
| "toNumber (JBool b) = Some (if b then 1 else 0)"
| "toNumber (JNum r) = Some r"
| "toNumber (JStr s) = stringToNumber s"
| "toNumber (JArr xs) = stringToNumber (jsToString (JArr xs))"
| "toNumber (JObj al) = None"

fun typeofString :: "jsval \<Rightarrow> bool" where
  "typeofString (JStr s) = True"
| "typeofString _ = False"

fun toPrimitive :: "jsval \<Rightarrow> jsval" where
  "toPrimitive (JArr xs) = JStr (jsToString (JArr xs))"
| "toPrimitive (JObj al) = JStr (jsToString (JObj al))"
| "toPrimitive v = v"

text \<open>
  \<^verbatim>\<open>a + b\<close>: concatenation as soon as one operand is a string, addition of numbers
  otherwise. \<open>None\<close> is the sum \<^verbatim>\<open>NaN\<close>.
\<close>

definition jsPlus :: "jsval \<Rightarrow> jsval \<Rightarrow> jsval option" where
  "jsPlus a b =
     (if typeofString (toPrimitive a) \<or> typeofString (toPrimitive b)
      then Some (JStr (jsToString (toPrimitive a) @ jsToString (toPrimitive b)))
      else (case (toNumber a, toNumber b) of
              (Some x, Some y) \<Rightarrow> Some (JNum (x + y))
            | _ \<Rightarrow> None))"

text \<open>\<^verbatim>\<open>a / b\<close>; \<open>None\<close> is a quotient that is not a finite number.\<close>

definition jsDivide :: "jsval \<Rightarrow> jsval \<Rightarrow> jsval option" where
  "jsDivide a b =
     (case (toNumber a, toNumber b) of
        (Some x, Some y) \<Rightarrow> if y = 0 then None else Some (JNum (x / y))
      | _ \<Rightarrow> None)"

text \<open>\<^verbatim>\<open>v ?? d\<close>.\<close>

definition nullish :: "jsval \<Rightarrow> jsval \<Rightarrow> jsval" where
  "nullish v d = (if v = JUndefined \<or> v = JNull then d else v)"

text \<open>The own enumerable properties that \<^verbatim>\<open>{...v}\<close> copies.\<close>

fun spreadObject :: "jsval \<Rightarrow> jsobj" where
  "spreadObject (JObj al) = al"
| "spreadObject (JArr xs) = zip (map natToString [0..<length xs]) xs"
| "spreadObject (JStr s) = zip (map natToString [0..<length s]) (map (\<lambda>c. JStr [c]) s)"
| "spreadObject _ = []"

text \<open>
  What \<^verbatim>\<open>k in v\<close> and \<^verbatim>\<open>v[k]\<close> find in an object or an array: a property of its own, a
  property that it inherits from its prototype, or nothing.
\<close>

datatype property = Absent | Inherited | Own jsval

definition arrayPrototypeNames :: "string list" where
  "arrayPrototypeNames =
     [''at'', ''concat'', ''copyWithin'', ''fill'', ''find'', ''findIndex'', ''findLast'',
      ''findLastIndex'', ''lastIndexOf'', ''pop'', ''push'', ''reverse'', ''shift'', ''unshift'',
      ''slice'', ''sort'', ''splice'', ''includes'', ''indexOf'', ''join'', ''keys'', ''entries'',
      ''values'', ''forEach'', ''filter'', ''flat'', ''flatMap'', ''map'', ''every'', ''some'',
      ''reduce'', ''reduceRight'', ''toReversed'', ''toSorted'', ''toSpliced'', ''with'']"

fun lookupProperty :: "jsval \<Rightarrow> string \<Rightarrow> property" where
  "lookupProperty (JObj al) k =
     (case map_of al k of
        Some v \<Rightarrow> Own v
      | None \<Rightarrow> if k \<in> set objectPrototypeNames then Inherited else Absent)"
| "lookupProperty (JArr xs) k =
     (case map_of (spreadObject (JArr xs)) k of
        Some v \<Rightarrow> Own v
      | None \<Rightarrow>
          if k = ''length'' then Own (JNum (of_nat (length xs)))
          else if k \<in> set arrayPrototypeNames \<or> k \<in> set objectPrototypeNames then Inherited
          else Absent)"
| "lookupProperty _ k = Absent"

text \<open>
  \<^verbatim>\<open>v[k]\<close> where the value read is used only if it is a number or compared with the
  values of a record: a property that is only inherited is a function, and stands here
  as \<^verbatim>\<open>undefined\<close> does.
\<close>

definition propertyValue :: "jsval \<Rightarrow> string \<Rightarrow> jsval" where
  "propertyValue v k = (case lookupProperty v k of Own w \<Rightarrow> w | _ \<Rightarrow> JUndefined)"

section \<open>Minimum-rate primitive (tmcp-control-minrate)\<close>

definition minrateTAG :: string where
  "minrateTAG = ''minr''"

text \<open>
  The interval from the two parameters as \<^verbatim>\<open>cli.get\<close> returns them: \<open>Inl 1\<close> is
  \<^verbatim>\<open>process.exit(1)\<close>. The result is \<open>None\<close> where \<^verbatim>\<open>1000 / rate\<close> is not a finite
  number.
\<close>

definition resolveIntervalMs :: "jsval \<Rightarrow> jsval \<Rightarrow> (int + jsval) option" where
  "resolveIntervalMs intervalFromOverride rateFromOverride =
     (let haveInterval = (intervalFromOverride \<noteq> JUndefined \<and> intervalFromOverride \<noteq> JNull);
          haveRate = (rateFromOverride \<noteq> JUndefined \<and> rateFromOverride \<noteq> JNull)
      in if haveInterval \<and> haveRate then Some (Inl 1)
         else if haveInterval then Some (Inr intervalFromOverride)
         else if haveRate then map_option Inr (jsDivide (JNum 1000) rateFromOverride)
         else Some (Inl 1))"

definition minrateParams :: "paramSpecArg list" where
  "minrateParams =
     [paramCall ''interval-ms'' ''TMCP_INTERVAL_MS'' None True None False,
      paramCall ''rate'' ''TMCP_RATE'' None True None False]"

text \<open>The module up to the value of \<^verbatim>\<open>intervalMs\<close>.\<close>

definition minrateStartup :: "string list \<Rightarrow> (string \<times> string) list \<Rightarrow> jsval startup" where
  "minrateStartup argv env =
     andThen (andThen (libraryStartup argv env) (registerAndLoad minrateParams argv env))
       (\<lambda>cli. case resolveIntervalMs (cliGet cli ''param.interval-ms'') (cliGet cli ''param.rate'') of
                 None \<Rightarrow> NotModelled
               | Some (Inl code) \<Rightarrow> Exits code
               | Some (Inr intervalMs) \<Rightarrow> Running intervalMs)"

record minrateState =
  lastMessage :: "jsval option"
  lastLogicalTs :: jsval
  lastEmitWall :: rat

definition initialMinrateState :: minrateState where
  "initialMinrateState = \<lparr>lastMessage = None, lastLogicalTs = JNull, lastEmitWall = 0\<rparr>"

text \<open>
  \<^verbatim>\<open>emitClone\<close> at wall-clock time \<open>now\<close>: the records written and the state afterwards;
  \<open>None\<close> where the new logical timestamp is \<^verbatim>\<open>NaN\<close>.
\<close>

definition emitClone :: "jsval \<Rightarrow> rat \<Rightarrow> minrateState \<Rightarrow> (jsval list \<times> minrateState) option" where
  "emitClone intervalMs now st =
     (case lastMessage st of
        None \<Rightarrow> Some ([], st)
      | Some msg \<Rightarrow>
          (case jsPlus (if typeofNumber (lastLogicalTs st) then lastLogicalTs st else JNum now) intervalMs of
             None \<Rightarrow> None
           | Some ts \<Rightarrow>
               (let srcMeta = (if truthy (getProp msg ''meta'') then getProp msg ''meta'' else JObj []);
                    meta = JObj (objSet ''timestamp'' ts
                             (objSet ''pipeline''
                                (case getProp srcMeta ''pipeline'' of
                                   JArr tags \<Rightarrow> JArr tags
                                 | _ \<Rightarrow> JArr [JStr minrateTAG])
                                (spreadObject srcMeta)));
                    cloned = JObj [(''meta'', meta), (''data'', nullish (getProp msg ''data'') (JObj []))]
                in Some ([safeWrite cloned], st\<lparr>lastLogicalTs := ts, lastEmitWall := now\<rparr>))))"

text \<open>One firing of the watchdog timer.\<close>

definition minrateWatchdog :: "jsval \<Rightarrow> rat \<Rightarrow> minrateState \<Rightarrow> (jsval list \<times> minrateState) option" where
  "minrateWatchdog intervalMs now st =
     (if lastMessage st = None then Some ([], st)
      else (case toNumber intervalMs of
              None \<Rightarrow> Some ([], st)
            | Some i \<Rightarrow> if now - lastEmitWall st \<ge> i then emitClone intervalMs now st else Some ([], st)))"

text \<open>
  The handler of the main stream. \<^verbatim>\<open>lastMessage\<close> keeps the object handed to
  \<^verbatim>\<open>safeWrite\<close>, which that call has normalized in place.
\<close>

definition minrateOnRecord :: "jsval \<Rightarrow> rat \<Rightarrow> jsval \<Rightarrow> minrateState \<Rightarrow> jsval list \<times> minrateState" where
  "minrateOnRecord doTag now obj st =
     (if \<not> truthy obj then ([], st)
      else (let metaIn = (if truthy (getProp obj ''meta'') then getProp obj ''meta'' else JObj []);
                dataIn = (if truthy (getProp obj ''data'') then getProp obj ''data'' else JObj []);
                ts = (if typeofNumber (getProp metaIn ''timestamp'')
                      then getProp metaIn ''timestamp'' else JNum now);
                outMeta = appendTag doTag (JObj (objSet ''timestamp'' ts (spreadObject metaIn))) minrateTAG;
                out = safeWrite (JObj [(''meta'', outMeta), (''data'', dataIn)])
            in ([out], \<lparr>lastMessage = Some out, lastLogicalTs = ts, lastEmitWall = now\<rparr>)))"

section \<open>The policy order as the specification words it\<close>

text \<open>
  The specification computes the effective \<^verbatim>\<open>exitOnClose\<close> in the order built-in default,
  module-supplied option, legacy \<^verbatim>\<open>linger\<close> alias, global parameter, each later source
  overriding the earlier ones. This definition follows those words; it is compared with
  \<^verbatim>\<open>resolveChannelPolicies\<close> below.
\<close>

definition exitOnCloseAsSpecified :: "bool \<Rightarrow> channelOptions \<Rightarrow> bool option \<Rightarrow> bool" where
  "exitOnCloseAsSpecified builtin options global =
     (let afterOption = (case optExitOnClose options of JBool b \<Rightarrow> b | _ \<Rightarrow> builtin);
          afterLinger = (case linger options of JBool l \<Rightarrow> \<not> l | _ \<Rightarrow> afterOption)
      in case global of Some b \<Rightarrow> b | None \<Rightarrow> afterLinger)"

section \<open>Merge primitive (tmcp-control-merge-streams.js)\<close>

definition mergeTAG :: string where
  "mergeTAG = ''mrg''"

text \<open>
  The configuration as the module resolves it: the two windows in milliseconds, the
  configured postfixes (empty when the configuration gives none) and the mode of each
  side channel.
\<close>

record mergeConfig =
  MATCH_TOLERANCE_MS :: rat
  MAX_BUFFER_MS :: rat
  postfixes :: "string list"
  allowUnbounded :: "bool list"

record mergeState =
  mainBuffer :: "jsval list"
  sideBuffers :: "jsval list list"
  sideLastUnbounded :: "jsval option list"

definition initialMergeState :: "nat \<Rightarrow> mergeState" where
  "initialMergeState n =
     \<lparr>mainBuffer = [], sideBuffers = replicate n [], sideLastUnbounded = replicate n None\<rparr>"

text \<open>\<^verbatim>\<open>obj.meta?.timestamp\<close>.\<close>

definition recTimestamp :: "jsval \<Rightarrow> jsval" where
  "recTimestamp obj = getProp (getProp obj ''meta'') ''timestamp''"

text \<open>
  \<^verbatim>\<open>(obj.meta?.timestamp ?? 0)\<close> as the number that a comparison or a subtraction makes of
  it; \<open>None\<close> is \<^verbatim>\<open>NaN\<close>, with which every comparison is false.
\<close>

definition timestampOr0 :: "jsval \<Rightarrow> rat option" where
  "timestampOr0 obj = toNumber (nullish (recTimestamp obj) (JNum 0))"

definition lessNaN :: "rat option \<Rightarrow> rat option \<Rightarrow> bool" where
  "lessNaN a b = (case (a, b) of (Some x, Some y) \<Rightarrow> x < y | _ \<Rightarrow> False)"

definition lessEqNaN :: "rat option \<Rightarrow> rat option \<Rightarrow> bool" where
  "lessEqNaN a b = (case (a, b) of (Some x, Some y) \<Rightarrow> x \<le> y | _ \<Rightarrow> False)"

definition trimBuffer :: "mergeConfig \<Rightarrow> rat \<Rightarrow> jsval list \<Rightarrow> jsval list" where
  "trimBuffer cfg now buf =
     dropWhile (\<lambda>rec. lessNaN (timestampOr0 rec) (Some (now - MAX_BUFFER_MS cfg))) buf"

definition pushMain :: "mergeConfig \<Rightarrow> rat \<Rightarrow> jsval \<Rightarrow> mergeState \<Rightarrow> mergeState" where
  "pushMain cfg now obj st = st\<lparr>mainBuffer := trimBuffer cfg now (mainBuffer st @ [obj])\<rparr>"

text \<open>
  \<^verbatim>\<open>pushSide\<close> is installed for the indices of the side paths only; for another index the
  model leaves the state as it is.
\<close>

definition pushSide :: "mergeConfig \<Rightarrow> rat \<Rightarrow> nat \<Rightarrow> jsval \<Rightarrow> mergeState \<Rightarrow> mergeState" where
  "pushSide cfg now idx obj st =
     (if idx \<ge> length (sideBuffers st) then st
      else if idx < length (allowUnbounded cfg) \<and> allowUnbounded cfg ! idx
      then st\<lparr>sideLastUnbounded :=
                (if typeofNumber (recTimestamp obj)
                 then (sideLastUnbounded st)[idx := Some obj] else sideLastUnbounded st),
              sideBuffers := (sideBuffers st)[idx := sideBuffers st ! idx @ [obj]]\<rparr>
      else if typeofNumber (recTimestamp obj)
      then st\<lparr>sideBuffers := (sideBuffers st)[idx := trimBuffer cfg now (sideBuffers st ! idx @ [obj])]\<rparr>
      else st)"

text \<open>\<^verbatim>\<open>Math.abs(ts - (rec.meta?.timestamp ?? 0))\<close>.\<close>

definition absDiff :: "rat \<Rightarrow> jsval \<Rightarrow> rat option" where
  "absDiff ts rec = map_option (\<lambda>x. \<bar>ts - x\<bar>) (timestampOr0 rec)"

definition findClosest :: "mergeConfig \<Rightarrow> jsval list \<Rightarrow> rat \<Rightarrow> jsval option" where
  "findClosest cfg buf ts =
     (case buf of
        [] \<Rightarrow> None
      | first # _ \<Rightarrow>
          (let (best, bestDiff) =
                 foldl (\<lambda>(best, bestDiff) rec.
                          if lessNaN (absDiff ts rec) bestDiff then (rec, absDiff ts rec)
                          else (best, bestDiff))
                   (first, absDiff ts first) buf
           in if lessNaN (Some (MATCH_TOLERANCE_MS cfg)) bestDiff then None else Some best))"

fun stringLessEq :: "string \<Rightarrow> string \<Rightarrow> bool" where
  "stringLessEq [] t = True"
| "stringLessEq (c # cs) [] = False"
| "stringLessEq (c # cs) (d # ds) =
     ((of_char c :: nat) < of_char d \<or> (c = d \<and> stringLessEq cs ds))"

text \<open>\<^verbatim>\<open>a <= b\<close>: two strings compare by their characters, anything else as numbers.\<close>

definition jsLessEq :: "jsval \<Rightarrow> jsval \<Rightarrow> bool" where
  "jsLessEq a b =
     (case (toPrimitive a, toPrimitive b) of
        (JStr s, JStr t) \<Rightarrow> stringLessEq s t
      | _ \<Rightarrow> lessEqNaN (toNumber a) (toNumber b))"

text \<open>
  \<^verbatim>\<open>v1 + (v2 - v1) * ratio\<close> for two numbers and a ratio that may be \<^verbatim>\<open>NaN\<close>; the result
  \<^verbatim>\<open>NaN\<close> is kept as \<open>JNull\<close>, which is what \<^verbatim>\<open>JSON.stringify\<close> writes for it.
\<close>

definition interpolateValue :: "rat option \<Rightarrow> jsval \<Rightarrow> jsval \<Rightarrow> jsval" where
  "interpolateValue ratio v1 v2 =
     (case (v1, v2) of
        (JNum x1, JNum x2) \<Rightarrow> (case ratio of Some r \<Rightarrow> JNum (x1 + (x2 - x1) * r) | None \<Rightarrow> JNull)
      | _ \<Rightarrow> v1)"

text \<open>
  The loop of \<^verbatim>\<open>interpolateBounded\<close> over the entries of \<^verbatim>\<open>before.data\<close>, which for an
  array are its elements under their indices. The data of a normalized record is an
  object or an array; the loop has no entries for \<^verbatim>\<open>null\<close>, a number or a boolean.
\<close>

definition interpolateData :: "rat option \<Rightarrow> jsval \<Rightarrow> jsval \<Rightarrow> jsval" where
  "interpolateData ratio beforeData afterData =
     (case beforeData of
        JObj al \<Rightarrow> JObj (map (\<lambda>(k, v1). (k, interpolateValue ratio v1 (propertyValue afterData k))) al)
      | JArr xs \<Rightarrow>
          JArr (map (\<lambda>(k, v1). interpolateValue ratio v1 (propertyValue afterData k))
                  (spreadObject (JArr xs)))
      | _ \<Rightarrow> beforeData)"

definition lastOption :: "'a list \<Rightarrow> 'a option" where
  "lastOption xs = (case xs of [] \<Rightarrow> None | _ \<Rightarrow> Some (last xs))"

definition interpolateBounded :: "mergeConfig \<Rightarrow> jsval list \<Rightarrow> rat \<Rightarrow> jsval option" where
  "interpolateBounded cfg buf ts =
     (case findClosest cfg buf ts of
        Some nearest \<Rightarrow> Some nearest
      | None \<Rightarrow>
          (case (lastOption (filter (\<lambda>rec. lessEqNaN (timestampOr0 rec) (Some ts)) buf),
                 find (\<lambda>rec. lessNaN (Some ts) (timestampOr0 rec)) buf) of
             (Some beforeRec, Some afterRec) \<Rightarrow>
               (let t1 = recTimestamp beforeRec; t2 = recTimestamp afterRec
                in if jsLessEq t2 t1 then Some beforeRec
                   else (let ratio =
                               (case (toNumber t1, toNumber t2) of
                                  (Some x1, Some x2) \<Rightarrow>
                                    if x2 - x1 = 0 then None else Some ((ts - x1) / (x2 - x1))
                                | _ \<Rightarrow> None);
                             out = setProp ''data''
                                     (interpolateData ratio (getProp beforeRec ''data'') (getProp afterRec ''data''))
                                     beforeRec
                         in Some (setProp ''meta'' (setProp ''timestamp'' (JNum ts) (getProp out ''meta'')) out)))
           | (Some beforeRec, None) \<Rightarrow> Some beforeRec
           | (None, Some afterRec) \<Rightarrow> Some afterRec
           | (None, None) \<Rightarrow> None))"

definition interpolateSide :: "mergeConfig \<Rightarrow> mergeState \<Rightarrow> nat \<Rightarrow> rat \<Rightarrow> jsval option" where
  "interpolateSide cfg st idx ts =
     (if idx < length (allowUnbounded cfg) \<and> allowUnbounded cfg ! idx
      then (if idx < length (sideLastUnbounded st) then sideLastUnbounded st ! idx else None)
      else interpolateBounded cfg (sideBuffers st ! idx) ts)"

text \<open>\<^verbatim>\<open>postfixes[i] ?? `_${i + 1}`\<close>.\<close>

definition postfixOf :: "mergeConfig \<Rightarrow> nat \<Rightarrow> string" where
  "postfixOf cfg i = (if i < length (postfixes cfg) then postfixes cfg ! i else ''_'' @ natToString (i + 1))"

text \<open>The inner loop of \<^verbatim>\<open>tryEmit\<close>: the fields of one side record go into the merged data.\<close>

definition mergeFields :: "string \<Rightarrow> jsval \<Rightarrow> jsobj \<Rightarrow> jsobj" where
  "mergeFields postfix rec merged =
     foldl (\<lambda>d (key, val). objSet (key @ postfix) val d) merged (spreadObject (getProp rec ''data''))"

definition mergeSide :: "mergeConfig \<Rightarrow> mergeState \<Rightarrow> rat \<Rightarrow> jsobj \<Rightarrow> nat \<Rightarrow> jsobj" where
  "mergeSide cfg st ts merged i =
     (case interpolateSide cfg st i ts of
        None \<Rightarrow> merged
      | Some rec \<Rightarrow>
          if \<not> truthy rec \<or> \<not> truthy (getProp rec ''data'') then merged
          else mergeFields (postfixOf cfg i) rec merged)"

definition objectOrEmpty :: "jsval \<Rightarrow> jsval" where
  "objectOrEmpty v = (if truthy v then v else JObj [])"

definition emitPassthrough :: "jsval \<Rightarrow> jsval \<Rightarrow> jsval" where
  "emitPassthrough doTag mainObj =
     safeWrite (JObj [(''meta'', appendTag doTag
                                  (JObj (spreadObject (objectOrEmpty (getProp mainObj ''meta'')))) mergeTAG),
                      (''data'', JObj (spreadObject (objectOrEmpty (getProp mainObj ''data''))))])"

text \<open>\<^verbatim>\<open>tryEmit\<close>: the records written.\<close>

definition tryEmit :: "jsval \<Rightarrow> mergeConfig \<Rightarrow> mergeState \<Rightarrow> jsval list" where
  "tryEmit doTag cfg st =
     (case lastOption (mainBuffer st) of
        None \<Rightarrow> []
      | Some mainObj \<Rightarrow>
          (case recTimestamp mainObj of
             JNum ts \<Rightarrow>
               [safeWrite
                  (JObj [(''meta'', appendTag doTag
                                     (JObj (objSet ''timestamp'' (JNum ts)
                                              (spreadObject (objectOrEmpty (getProp mainObj ''meta'')))))
                                     mergeTAG),
                         (''data'', JObj (foldl (mergeSide cfg st ts)
                                            (spreadObject (objectOrEmpty (getProp mainObj ''data'')))
                                            [0..<length (sideBuffers st)]))])]
           | _ \<Rightarrow> [emitPassthrough doTag mainObj]))"

text \<open>The handler of the primary stream at wall-clock time \<open>now\<close>.\<close>

definition mergeOnMain :: "jsval \<Rightarrow> mergeConfig \<Rightarrow> rat \<Rightarrow> jsval \<Rightarrow> mergeState \<Rightarrow> jsval list \<times> mergeState" where
  "mergeOnMain doTag cfg now obj st =
     (tryEmit doTag cfg (pushMain cfg now obj st), pushMain cfg now obj st)"

text \<open>The configuration when the file gives none of the four fields, for \<open>n\<close> side paths.\<close>

definition defaultMergeConfig :: "nat \<Rightarrow> mergeConfig" where
  "defaultMergeConfig n =
     \<lparr>MATCH_TOLERANCE_MS = 100, MAX_BUFFER_MS = 2000, postfixes = [], allowUnbounded = replicate n False\<rparr>"

section \<open>Logical-delay primitive (tmcp-control-delay.js)\<close>

definition delayTAG :: string where
  "delayTAG = ''dly''"

definition delayParams :: "paramSpecArg list" where
  "delayParams =
     [paramCall ''delay-ms'' ''TMCP_DELAY_MS'' None True None True,
      paramCall ''max-delay-ms'' ''TMCP_MAX_DELAY_MS'' (Some (JNum 10000)) True None False]"

text \<open>
  The two range checks on \<^verbatim>\<open>delayMs = Number(delayMsRaw)\<close>: \<open>Inl 1\<close> is
  \<^verbatim>\<open>process.exit(1)\<close>, \<open>Inr\<close> the delay the module runs with. A delay that is \<^verbatim>\<open>NaN\<close>
  passes both checks in the source; the model does not follow it there (\<open>None\<close>).
\<close>

definition checkDelay :: "jsval \<Rightarrow> jsval \<Rightarrow> (int + rat) option" where
  "checkDelay delayMsRaw maxDelayMsRaw =
     (case toNumber delayMsRaw of
        None \<Rightarrow> None
      | Some delayMs \<Rightarrow>
          Some (if delayMs < 0 then Inl 1
                else if lessNaN (toNumber maxDelayMsRaw) (Some delayMs) then Inl 1
                else Inr delayMs))"

definition delayStartup :: "string list \<Rightarrow> (string \<times> string) list \<Rightarrow> rat startup" where
  "delayStartup argv env =
     andThen (andThen (libraryStartup argv env) (registerAndLoad delayParams argv env))
       (\<lambda>cli. case checkDelay (cliGet cli ''param.delay-ms'') (cliGet cli ''param.max-delay-ms'') of
                 None \<Rightarrow> NotModelled
               | Some (Inl code) \<Rightarrow> Exits code
               | Some (Inr delayMs) \<Rightarrow> Running delayMs)"

record delayItem =
  outTs :: rat
  storedObj :: jsval

text \<open>
  The state of the module; the watermark starts at \<^verbatim>\<open>Number.NEGATIVE_INFINITY\<close>, which
  is \<open>None\<close> here.
\<close>

record delayState =
  queue :: "delayItem list"
  inputClosed :: bool
  watermarkTs :: "rat option"

definition initialDelayState :: delayState where
  "initialDelayState = \<lparr>queue = [], inputClosed = False, watermarkTs = None\<rparr>"

text \<open>
  The binary search of \<^verbatim>\<open>insertSorted\<close>. \<^verbatim>\<open>(lo + hi) >> 1\<close> is the half of the sum as
  long as the sum is below \<open>2\<^sup>3\<^sup>1\<close>, which a queue in memory does not reach.
\<close>

function insertionIndex :: "delayItem list \<Rightarrow> rat \<Rightarrow> nat \<Rightarrow> nat \<Rightarrow> nat" where
  "insertionIndex q ts lo hi =
     (if lo < hi
      then (if outTs (q ! ((lo + hi) div 2)) \<le> ts
            then insertionIndex q ts ((lo + hi) div 2 + 1) hi
            else insertionIndex q ts lo ((lo + hi) div 2))
      else lo)"
  by pat_completeness auto
termination
  by (relation "measure (\<lambda>(q, ts, lo, hi). hi - lo)") auto

declare insertionIndex.simps [simp del]

definition insertSorted :: "delayItem \<Rightarrow> delayItem list \<Rightarrow> delayItem list" where
  "insertSorted item q =
     take (insertionIndex q (outTs item) 0 (length q)) q @ item
       # drop (insertionIndex q (outTs item) 0 (length q)) q"

text \<open>\<^verbatim>\<open>emitItem\<close>: the record written for a queue item.\<close>

definition emitItem :: "jsval \<Rightarrow> delayItem \<Rightarrow> jsval" where
  "emitItem doTag item =
     (let out = storedObj item;
          metaIn = (if truthy out \<and> truthy (getProp out ''meta'') \<and> typeofObject (getProp out ''meta'')
                    then getProp out ''meta'' else JObj []);
          pipelineIn = (case getProp metaIn ''pipeline'' of JArr tags \<Rightarrow> tags | _ \<Rightarrow> [])
      in safeWrite
           (setProp ''meta''
              (appendTag doTag
                 (JObj (objSet ''timestamp'' (JNum (outTs item))
                          (objSet ''pipeline'' (JArr pipelineIn) (spreadObject metaIn))))
                 delayTAG)
              out))"

text \<open>
  The loop of \<^verbatim>\<open>flushReady\<close>: the items shifted off the front of the queue, in the order
  in which they are emitted, and the queue that stays.
\<close>

fun shiftReady :: "rat option \<Rightarrow> delayItem list \<Rightarrow> delayItem list \<times> delayItem list" where
  "shiftReady w [] = ([], [])"
| "shiftReady w (item # q) =
     (if lessEqNaN (Some (outTs item)) w
      then (item # fst (shiftReady w q), snd (shiftReady w q))
      else ([], item # q))"

definition flushReady :: "jsval \<Rightarrow> delayState \<Rightarrow> jsval list \<times> delayState" where
  "flushReady doTag st =
     (map (emitItem doTag) (fst (shiftReady (watermarkTs st) (queue st))),
      st\<lparr>queue := snd (shiftReady (watermarkTs st) (queue st))\<rparr>)"

definition flushAll :: "jsval \<Rightarrow> delayState \<Rightarrow> jsval list \<times> delayState" where
  "flushAll doTag st = (map (emitItem doTag) (queue st), st\<lparr>queue := []\<rparr>)"

text \<open>The handler of the input stream, for a delay \<open>delayMs\<close> at wall-clock time \<open>now\<close>.\<close>

definition delayOnRecord :: "jsval \<Rightarrow> rat \<Rightarrow> rat \<Rightarrow> jsval \<Rightarrow> delayState \<Rightarrow> jsval list \<times> delayState" where
  "delayOnRecord doTag delayMs now input st =
     (if \<not> truthy input then ([], st)
      else (let tsIn = (case recTimestamp input of JNum t \<Rightarrow> t | _ \<Rightarrow> now);
                w = (if lessNaN (watermarkTs st) (Some tsIn) \<or> watermarkTs st = None
                     then Some tsIn else watermarkTs st)
            in flushReady doTag
                 (st\<lparr>watermarkTs := w,
                     queue := insertSorted \<lparr>outTs = tsIn + delayMs, storedObj = input\<rparr> (queue st)\<rparr>)))"

text \<open>
  The handler of \<^verbatim>\<open>end\<close> and \<^verbatim>\<open>close\<close> of the input: the records written, the state, and
  the exit code when \<^verbatim>\<open>maybeExit\<close> ends the process.
\<close>

definition delayOnEnd :: "jsval \<Rightarrow> delayState \<Rightarrow> jsval list \<times> delayState \<times> int option" where
  "delayOnEnd doTag st =
     (let (out, st') = flushAll doTag (st\<lparr>inputClosed := True\<rparr>)
      in (out, st', if inputClosed st' \<and> queue st' = [] then Some 0 else None))"

text \<open>
  A whole run: the records arrive one by one, each at its wall-clock time, and then the
  input ends. The result lists everything written, in order.
\<close>

fun delayFeed :: "jsval \<Rightarrow> rat \<Rightarrow> (rat \<times> jsval) list \<Rightarrow> delayState \<Rightarrow> jsval list \<times> delayState" where
  "delayFeed doTag delayMs [] st = ([], st)"
| "delayFeed doTag delayMs ((now, input) # rest) st =
     (fst (delayOnRecord doTag delayMs now input st)
        @ fst (delayFeed doTag delayMs rest (snd (delayOnRecord doTag delayMs now input st))),
      snd (delayFeed doTag delayMs rest (snd (delayOnRecord doTag delayMs now input st))))"

definition delayRun :: "jsval \<Rightarrow> rat \<Rightarrow> (rat \<times> jsval) list \<Rightarrow> jsval list \<times> int option" where
  "delayRun doTag delayMs inputs =
     (let (out1, st1) = delayFeed doTag delayMs inputs initialDelayState;
          (out2, st2, code) = delayOnEnd doTag st1
      in (out1 @ out2, code))"


section \<open>Deduplication primitive (tmcp-control-dedup.js)\<close>

text \<open>
  The configuration as the module computes it from its file: \<^verbatim>\<open>IGNORE_FIELDS\<close> is an array
  of any values, \<^verbatim>\<open>CHECK_FIELDS\<close> is an array or \<^verbatim>\<open>null\<close> (\<open>None\<close>), its entries taken to
  be strings, and \<^verbatim>\<open>NUM_TOL\<close> is a finite number.
\<close>

record dedupConfig =
  IGNORE_FIELDS :: "jsval list"
  CHECK_FIELDS :: "string list option"
  NUM_TOL :: rat

record dedupState =
  lastData :: jsval
  haveLast :: bool

definition initialDedupState :: dedupState where
  "initialDedupState = \<lparr>lastData = JNull, haveLast = False\<rparr>"

text \<open>\<^verbatim>\<open>Object.keys(v)\<close>; an object lists each of its properties once.\<close>

definition objectKeys :: "jsval \<Rightarrow> string list" where
  "objectKeys v = map fst (spreadObject v)"

definition computeComparisonFields :: "dedupConfig \<Rightarrow> jsval \<Rightarrow> string list" where
  "computeComparisonFields cfg cur =
     filter (\<lambda>k. JStr k \<notin> set (IGNORE_FIELDS cfg))
       (case CHECK_FIELDS cfg of Some base \<Rightarrow> base | None \<Rightarrow> objectKeys cur)"

text \<open>
  \<^verbatim>\<open>a === b\<close> for a value of the current record and a value of the remembered clone: two
  objects or arrays are then never the same object.
\<close>

fun strictEquals :: "jsval \<Rightarrow> jsval \<Rightarrow> bool" where
  "strictEquals JUndefined JUndefined = True"
| "strictEquals JNull JNull = True"
| "strictEquals (JBool a) (JBool b) = (a = b)"
| "strictEquals (JNum a) (JNum b) = (a = b)"
| "strictEquals (JStr a) (JStr b) = (a = b)"
| "strictEquals _ _ = False"

definition isEqualWithTolerance :: "dedupConfig \<Rightarrow> jsval \<Rightarrow> jsval \<Rightarrow> bool" where
  "isEqualWithTolerance cfg a b =
     (case (a, b) of
        (JNum x, JNum y) \<Rightarrow> \<bar>x - y\<bar> \<le> NUM_TOL cfg
      | _ \<Rightarrow> strictEquals a b)"

text \<open>\<^verbatim>\<open>typeof v === "object" && v !== null\<close>.\<close>

definition isObjectValue :: "jsval \<Rightarrow> bool" where
  "isObjectValue v = (typeofObject v \<and> v \<noteq> JNull)"

text \<open>
  The loop over \<^verbatim>\<open>keysC\<close> of the shallow comparison: \<open>Some True\<close> is \<^verbatim>\<open>return true\<close> and
  \<open>Some False\<close> is the end of the loop. The model does not follow the comparison with a
  property that is only inherited, whose value is not a value of a record (\<open>None\<close>).
\<close>

fun subChanged :: "dedupConfig \<Rightarrow> jsval \<Rightarrow> jsval \<Rightarrow> string list \<Rightarrow> bool option" where
  "subChanged cfg vCurr vPrev [] = Some False"
| "subChanged cfg vCurr vPrev (sub # subs) =
     (case lookupProperty vPrev sub of
        Absent \<Rightarrow> Some True
      | Inherited \<Rightarrow> None
      | Own w \<Rightarrow>
          (case lookupProperty vCurr sub of
             Inherited \<Rightarrow> None
           | Absent \<Rightarrow> if \<not> isEqualWithTolerance cfg JUndefined w then Some True
                       else subChanged cfg vCurr vPrev subs
           | Own v \<Rightarrow> if \<not> isEqualWithTolerance cfg v w then Some True
                      else subChanged cfg vCurr vPrev subs))"

text \<open>The body of the second loop of \<^verbatim>\<open>hasMeaningfulChange\<close> for one field \<open>k\<close>.\<close>

definition fieldChanged :: "dedupConfig \<Rightarrow> jsval \<Rightarrow> jsval \<Rightarrow> string \<Rightarrow> bool option" where
  "fieldChanged cfg cur prev k =
     (case lookupProperty prev k of
        Absent \<Rightarrow> Some True
      | Inherited \<Rightarrow> None
      | Own vPrev \<Rightarrow>
          (case lookupProperty cur k of
             Inherited \<Rightarrow> None
           | found \<Rightarrow>
               (let vCurr = (case found of Own v \<Rightarrow> v | _ \<Rightarrow> JUndefined)
                in if \<not> isObjectValue vCurr \<or> \<not> isObjectValue vPrev
                   then Some (\<not> isEqualWithTolerance cfg vCurr vPrev)
                   else if length (objectKeys vCurr) \<noteq> length (objectKeys vPrev) then Some True
                   else subChanged cfg vCurr vPrev (objectKeys vCurr))))"

fun fieldsChanged :: "dedupConfig \<Rightarrow> jsval \<Rightarrow> jsval \<Rightarrow> string list \<Rightarrow> bool option" where
  "fieldsChanged cfg cur prev [] = Some False"
| "fieldsChanged cfg cur prev (k # ks) =
     (case fieldChanged cfg cur prev k of
        None \<Rightarrow> None
      | Some True \<Rightarrow> Some True
      | Some False \<Rightarrow> fieldsChanged cfg cur prev ks)"

definition hasMeaningfulChange :: "dedupConfig \<Rightarrow> dedupState \<Rightarrow> jsval \<Rightarrow> bool option" where
  "hasMeaningfulChange cfg st cur =
     (if \<not> haveLast st then Some True
      else if list_ex (\<lambda>k. lookupProperty (lastData st) k = Absent) (computeComparisonFields cfg cur)
      then Some True
      else fieldsChanged cfg cur (lastData st) (computeComparisonFields cfg cur))"

text \<open>
  The handler of the input stream: the records written and the state afterwards.
  \<^verbatim>\<open>parseLine\<close> hands over normalized records, whose \<^verbatim>\<open>data\<close> is an object or an array; the
  model does not follow the handler on other data (\<open>None\<close>).
\<close>

definition dedupOnRecord :: "jsval \<Rightarrow> dedupConfig \<Rightarrow> jsval \<Rightarrow> dedupState \<Rightarrow> (jsval list \<times> dedupState) option" where
  "dedupOnRecord doTag cfg obj st =
     (if \<not> truthy obj \<or> \<not> truthy (getProp obj ''data'') then Some ([], st)
      else if \<not> isObjectValue (getProp obj ''data'') then None
      else (case hasMeaningfulChange cfg st (getProp obj ''data'') of
              None \<Rightarrow> None
            | Some False \<Rightarrow> Some ([], st)
            | Some True \<Rightarrow>
                Some ([safeWrite (case getProp obj ''meta'' of
                                    JObj m \<Rightarrow> setProp ''meta'' (appendTag doTag (JObj m) ''dup'') obj
                                  | _ \<Rightarrow> obj)],
                      \<lparr>lastData = getProp obj ''data'', haveLast = True\<rparr>)))"

fun dedupFeed :: "jsval \<Rightarrow> dedupConfig \<Rightarrow> jsval list \<Rightarrow> dedupState \<Rightarrow> (jsval list \<times> dedupState) option" where
  "dedupFeed doTag cfg [] st = Some ([], st)"
| "dedupFeed doTag cfg (obj # rest) st =
     (case dedupOnRecord doTag cfg obj st of
        None \<Rightarrow> None
      | Some (out, st') \<Rightarrow>
          (case dedupFeed doTag cfg rest st' of
             None \<Rightarrow> None
           | Some (more_out, st'') \<Rightarrow> Some (out @ more_out, st'')))"

section \<open>The comparison of the deduplication as the specification words it\<close>




section \<open>Reducer (tmcp-transformer-reduce.js)\<close>














section \<open>Properties of the record core\<close>

lemma map_of_objSet: "map_of (objSet k v al) = (map_of al)(k \<mapsto> v)"
  by (induction al) auto

lemma keys_objSet: "fst ` set (objSet k v al) = insert k (fst ` set al)"
proof -
  have "dom (map_of (objSet k v al)) = insert k (dom (map_of al))"
    by (simp add: map_of_objSet)
  then show ?thesis
    by (simp add: dom_map_of_conv_image_fst)
qed


text \<open>
  C4, as the code has it. With the tag flag disabled \<^verbatim>\<open>appendTag\<close> returns the meta
  untouched, so it creates no pipeline. \<^verbatim>\<open>createMeta\<close> does create one: the empty array.
  Whatever value is handed to \<^verbatim>\<open>safeWrite\<close>, the record written has the pipeline that the
  meta of the value had when that is an array, and the empty array otherwise; the
  exceptions are a value that is itself an array and a meta that is an array, on which
  \<^verbatim>\<open>normalizeObject\<close> sets properties that the written line does not show, so that the
  pipeline is absent there.
\<close>

theorem tagging_disabled_pipeline:
  "\<not> tagEnabled doTag \<Longrightarrow>
     appendTag doTag meta tag = meta
     \<and> getProp (createMeta doTag now tag) ''pipeline'' = JArr []
     \<and> getProp (getProp (safeWrite obj) ''meta'') ''pipeline'' =
         (if isArray obj \<or> isArray (getProp obj ''meta'') then JUndefined
          else if isArray (getProp (getProp obj ''meta'') ''pipeline'')
          then getProp (getProp obj ''meta'') ''pipeline''
          else JArr [])"
proof -
  assume off: "\<not> tagEnabled doTag"
  have one: "appendTag doTag meta tag = meta"
    using off by (simp add: appendTag_def)
  have two: "getProp (createMeta doTag now tag) ''pipeline'' = JArr []"
    using off by (simp add: createMeta_def)
  have three: "getProp (getProp (safeWrite obj) ''meta'') ''pipeline'' =
         (if isArray obj \<or> isArray (getProp obj ''meta'') then JUndefined
          else if isArray (getProp (getProp obj ''meta'') ''pipeline'')
          then getProp (getProp obj ''meta'') ''pipeline''
          else JArr [])"
  proof (cases obj)
    case (JObj al)
    show ?thesis
    proof (cases "map_of al ''meta''")
      case None
      with JObj show ?thesis
        by (simp add: safeWrite_def normalizeObject_def Let_def map_of_objSet)
    next
      case (Some mt)
      with JObj show ?thesis
        by (cases mt) (simp_all add: safeWrite_def normalizeObject_def Let_def map_of_objSet)
    qed
  qed (simp_all add: safeWrite_def normalizeObject_def Let_def map_of_objSet)
  from one two three show ?thesis
    by (intro conjI)
qed

theorem tagging_disabled_pipeline_witness:
  "\<not> tagEnabled (JBool False)
   \<and> appendTag (JBool False) (JObj [(''timestamp'', JNum 5)]) ''gat'' = JObj [(''timestamp'', JNum 5)]
   \<and> getProp (createMeta (JBool False) 1000 ''gat'') ''pipeline'' = JArr []
   \<and> getProp (getProp (safeWrite (JObj [(''meta'', JObj [(''pipeline'', JArr [JStr ''src''])]),
                                          (''data'', JObj [])])) ''meta'') ''pipeline''
       = JArr [JStr ''src'']"
proof -
  have off: "\<not> tagEnabled (JBool False)"
    by (simp add: tagEnabled_def)
  from tagging_disabled_pipeline [OF off, where meta = "JObj [(''timestamp'', JNum 5)]" and tag = "''gat''"
      and now = 1000
      and obj = "JObj [(''meta'', JObj [(''pipeline'', JArr [JStr ''src''])]), (''data'', JObj [])]"]
  show ?thesis using off by simp
qed

text \<open>
  C4 as stated fails: with tagging disabled \<^verbatim>\<open>createMeta\<close> yields a pipeline, and
  \<^verbatim>\<open>safeWrite\<close> gives the empty pipeline to a record that came without one.
\<close>

theorem tagging_disabled_pipeline_counterexample:
  "\<not> tagEnabled (JBool False)
   \<and> getProp (createMeta (JBool False) 1000 ''src'') ''pipeline'' \<noteq> JUndefined
   \<and> getProp (JObj [(''timestamp'', JNum 5)]) ''pipeline'' = JUndefined
   \<and> getProp (getProp (safeWrite (JObj [(''meta'', JObj [(''timestamp'', JNum 5)]),
                                          (''data'', JObj [])])) ''meta'') ''pipeline'' = JArr []"
  by (simp add: tagEnabled_def createMeta_def safeWrite_def normalizeObject_def)
section \<open>Properties of the channel policies\<close>

lemma resolveChannelPolicies_channelId:
  "channelId (fst (resolveChannelPolicies cli st0 dir target options)) =
     inferChannelId target (explicitChannelId options) dir"
  by (simp add: resolveChannelPolicies_def Let_def)

lemma resolveChannelPolicies_state:
  "snd (resolveChannelPolicies cli st0 dir target options) = parseChannelPoliciesOnce cli st0"
  by (simp add: resolveChannelPolicies_def Let_def)

lemma resolveChannelPolicies_exitOnClose:
  "exitOnClose (fst (resolveChannelPolicies cli st0 dir target options)) =
     (case (case inferChannelId target (explicitChannelId options) dir of
              None \<Rightarrow> None
            | Some c \<Rightarrow> map_of (channelExitOnCloseOverrides (parseChannelPoliciesOnce cli st0)) c) of
        Some g \<Rightarrow> g
      | None \<Rightarrow>
          (case optExitOnClose options of
             JBool b \<Rightarrow> b
           | _ \<Rightarrow> (case linger options of
                     JBool l \<Rightarrow> \<not> l
                   | _ \<Rightarrow> if dir = Read
                          then inferChannelId target (explicitChannelId options) dir = Some ''stdin''
                          else inferChannelId target (explicitChannelId options) dir = Some ''stdout''
                             \<or> inferChannelId target (explicitChannelId options) dir = Some ''stderr'')))"
  by (simp add: resolveChannelPolicies_def Let_def split: option.splits)

lemma option_or_alias_cases:
  assumes "e = (case ox of JBool b \<Rightarrow> b
                | _ \<Rightarrow> (case lg of JBool l \<Rightarrow> \<not> l | _ \<Rightarrow> d))"
  shows "(\<forall>b. ox = JBool b \<longrightarrow> e = b)
       \<and> (\<forall>l. \<not> typeofBoolean ox \<and> lg = JBool l \<longrightarrow> e = (\<not> l))
       \<and> (\<not> typeofBoolean ox \<and> \<not> typeofBoolean lg \<longrightarrow> e = d)"
  unfolding assms by (cases ox; cases lg) simp_all

text \<open>
  C5, as the code has it. The effective \<^verbatim>\<open>exitOnClose\<close> of a read or write is the global
  \<^verbatim>\<open>--exit-on-close\<close> entry of the channel when there is one. Without one it is the
  \<^verbatim>\<open>exitOnClose\<close> option of the call when that is a boolean, whatever \<^verbatim>\<open>linger\<close> says;
  the \<^verbatim>\<open>linger\<close> alias decides only when the call gives no boolean \<^verbatim>\<open>exitOnClose\<close>; and
  the built-in default decides when the call gives neither.
\<close>

theorem exitOnClose_resolution_order:
  assumes "resolveChannelPolicies cli st0 dir target options = (p, st)"
  shows "(\<forall>c g. channelId p = Some c \<and> map_of (channelExitOnCloseOverrides st) c = Some g
            \<longrightarrow> exitOnClose p = g)
       \<and> ((case channelId p of None \<Rightarrow> None
            | Some c \<Rightarrow> map_of (channelExitOnCloseOverrides st) c) = None \<longrightarrow>
            (\<forall>b. optExitOnClose options = JBool b \<longrightarrow> exitOnClose p = b)
          \<and> (\<forall>l. \<not> typeofBoolean (optExitOnClose options) \<and> linger options = JBool l
                \<longrightarrow> exitOnClose p = (\<not> l))
          \<and> (\<not> typeofBoolean (optExitOnClose options) \<and> \<not> typeofBoolean (linger options)
                \<longrightarrow> exitOnClose p =
                     (if dir = Read then channelId p = Some ''stdin''
                      else channelId p = Some ''stdout'' \<or> channelId p = Some ''stderr'')))"
proof -
  from assms have p: "p = fst (resolveChannelPolicies cli st0 dir target options)"
    and st: "st = snd (resolveChannelPolicies cli st0 dir target options)"
    by simp_all
  have cid: "channelId p = inferChannelId target (explicitChannelId options) dir"
    unfolding p by (rule resolveChannelPolicies_channelId)
  have st': "st = parseChannelPoliciesOnce cli st0"
    unfolding st by (rule resolveChannelPolicies_state)
  have eq: "exitOnClose p =
     (case (case channelId p of None \<Rightarrow> None
            | Some c \<Rightarrow> map_of (channelExitOnCloseOverrides st) c) of
        Some g \<Rightarrow> g
      | None \<Rightarrow>
          (case optExitOnClose options of
             JBool b \<Rightarrow> b
           | _ \<Rightarrow> (case linger options of
                     JBool l \<Rightarrow> \<not> l
                   | _ \<Rightarrow> if dir = Read then channelId p = Some ''stdin''
                          else channelId p = Some ''stdout'' \<or> channelId p = Some ''stderr'')))"
    unfolding cid st' unfolding p by (rule resolveChannelPolicies_exitOnClose)
  have global: "\<forall>c g. channelId p = Some c \<and> map_of (channelExitOnCloseOverrides st) c = Some g
                  \<longrightarrow> exitOnClose p = g"
    using eq by simp
  have local: "(case channelId p of None \<Rightarrow> None
                | Some c \<Rightarrow> map_of (channelExitOnCloseOverrides st) c) = None \<longrightarrow>
            (\<forall>b. optExitOnClose options = JBool b \<longrightarrow> exitOnClose p = b)
          \<and> (\<forall>l. \<not> typeofBoolean (optExitOnClose options) \<and> linger options = JBool l
                \<longrightarrow> exitOnClose p = (\<not> l))
          \<and> (\<not> typeofBoolean (optExitOnClose options) \<and> \<not> typeofBoolean (linger options)
                \<longrightarrow> exitOnClose p =
                     (if dir = Read then channelId p = Some ''stdin''
                      else channelId p = Some ''stdout'' \<or> channelId p = Some ''stderr''))"
  proof (rule impI)
    assume none: "(case channelId p of None \<Rightarrow> None
                   | Some c \<Rightarrow> map_of (channelExitOnCloseOverrides st) c) = None"
    have "exitOnClose p =
          (case optExitOnClose options of
             JBool b \<Rightarrow> b
           | _ \<Rightarrow> (case linger options of
                     JBool l \<Rightarrow> \<not> l
                   | _ \<Rightarrow> if dir = Read then channelId p = Some ''stdin''
                          else channelId p = Some ''stdout'' \<or> channelId p = Some ''stderr''))"
      using eq unfolding none by simp
    then show "(\<forall>b. optExitOnClose options = JBool b \<longrightarrow> exitOnClose p = b)
          \<and> (\<forall>l. \<not> typeofBoolean (optExitOnClose options) \<and> linger options = JBool l
                \<longrightarrow> exitOnClose p = (\<not> l))
          \<and> (\<not> typeofBoolean (optExitOnClose options) \<and> \<not> typeofBoolean (linger options)
                \<longrightarrow> exitOnClose p =
                     (if dir = Read then channelId p = Some ''stdin''
                      else channelId p = Some ''stdout'' \<or> channelId p = Some ''stderr''))"
      by (rule option_or_alias_cases)
  qed
  from global local show ?thesis
    by (rule conjI)
qed

theorem exitOnClose_resolution_order_witness:
  "resolveChannelPolicies initialConfigState initialStreamState Write (Path ''/tmp/side.fifo'')
      \<lparr>explicitChannelId = JStr ''side:0'', optExitOnClose = JBool True, optRetry = JUndefined,
       linger = JBool True\<rparr>
     = (\<lparr>channelId = Some ''side:0'', exitOnClose = True, retry = False\<rparr>,
        \<lparr>channelExitOnCloseOverrides = [], channelRetryOverrides = [], channelPoliciesLoaded = True\<rparr>)
   \<and> exitOnClose \<lparr>channelId = Some ''side:0'', exitOnClose = True, retry = False\<rparr> = True"
proof -
  have run: "resolveChannelPolicies initialConfigState initialStreamState Write (Path ''/tmp/side.fifo'')
      \<lparr>explicitChannelId = JStr ''side:0'', optExitOnClose = JBool True, optRetry = JUndefined,
       linger = JBool True\<rparr>
     = (\<lparr>channelId = Some ''side:0'', exitOnClose = True, retry = False\<rparr>,
        \<lparr>channelExitOnCloseOverrides = [], channelRetryOverrides = [], channelPoliciesLoaded = True\<rparr>)"
    by code_simp
  from exitOnClose_resolution_order [OF run] have
    "exitOnClose \<lparr>channelId = Some ''side:0'', exitOnClose = True, retry = False\<rparr> = True"
    by simp
  with run show ?thesis by simp
qed

text \<open>
  C5 as stated fails: a call that gives both \<^verbatim>\<open>exitOnClose: true\<close> and \<^verbatim>\<open>linger: true\<close>,
  with no global entry for the channel, resolves to \<^verbatim>\<open>exitOnClose = true\<close>, where the
  order of the specification lets the \<^verbatim>\<open>linger\<close> alias decide and gives \<^verbatim>\<open>false\<close>.
\<close>

theorem exitOnClose_linger_counterexample:
  "exitOnClose (fst (resolveChannelPolicies initialConfigState initialStreamState Write
      (Path ''/tmp/side.fifo'')
      \<lparr>explicitChannelId = JStr ''side:0'', optExitOnClose = JBool True, optRetry = JUndefined,
       linger = JBool True\<rparr>)) = True
   \<and> exitOnCloseAsSpecified False
      \<lparr>explicitChannelId = JStr ''side:0'', optExitOnClose = JBool True, optRetry = JUndefined,
       linger = JBool True\<rparr> None = False"
  by code_simp

section \<open>Properties of the configuration registry\<close>

lemma varargs_only_last:
  assumes "\<not> list_ex varargs (butlast (spec # specs))"
  shows "\<not> list_ex varargs (butlast specs)" and "varargs spec \<Longrightarrow> specs = []"
  using assms by (cases specs; simp)+

lemma applySchemaLoop_missing:
  assumes "\<not> list_ex varargs (butlast specs)" and "JUndefined \<notin> set positionalsArr"
  shows "snd (applySchemaLoop specs positionalsArr idx named missing) =
           (missing \<or> (\<exists>i<length specs. required (specs ! i) \<and> length positionalsArr \<le> idx + i))"
  using assms
proof (induction specs arbitrary: idx named missing)
  case Nil
  show ?case by simp
next
  case (Cons spec specs)
  note last = varargs_only_last [OF Cons.prems(1)]
  show ?case
  proof (cases "varargs spec")
    case True
    with last(2) have "specs = []" by simp
    with True show ?thesis
      by (simp add: Let_def)
  next
    case False
    have here: "(if idx < length positionalsArr then positionalsArr ! idx else JUndefined) = JUndefined
                  \<longleftrightarrow> length positionalsArr \<le> idx"
      using Cons.prems(2) by (metis leD not_le_imp_less nth_mem)
    have split: "(\<exists>i<length (spec # specs). required ((spec # specs) ! i) \<and> length positionalsArr \<le> idx + i)
                   \<longleftrightarrow> (required spec \<and> length positionalsArr \<le> idx)
                       \<or> (\<exists>i<length specs. required (specs ! i) \<and> length positionalsArr \<le> Suc idx + i)"
      by (auto simp: less_Suc_eq_0_disj)
    from Cons.IH [OF last(1) Cons.prems(2), of "Suc idx"] False here show ?thesis
      unfolding split by (auto simp: Let_def)
  qed
qed

lemma applySchemaLoop_frame:
  assumes "k \<notin> set (map name specs)"
  shows "map_of (fst (applySchemaLoop specs positionalsArr idx named missing)) k = map_of named k"
  using assms
proof (induction specs arbitrary: idx named missing)
  case Nil
  show ?case by simp
next
  case (Cons spec specs)
  then show ?case
    by (cases "varargs spec") (simp_all add: Let_def map_of_objSet)
qed

lemma applySchemaLoop_bindings:
  assumes "\<not> list_ex varargs (butlast specs)" and "distinct (map name specs)" and "i < length specs"
  shows "map_of (fst (applySchemaLoop specs positionalsArr idx named missing)) (name (specs ! i)) =
           Some (if varargs (specs ! i) then JArr (drop (idx + i) positionalsArr)
                 else if idx + i < length positionalsArr then positionalsArr ! (idx + i)
                 else JUndefined)"
  using assms
proof (induction specs arbitrary: idx named missing i)
  case Nil
  then show ?case by simp
next
  case (Cons spec specs)
  note last = varargs_only_last [OF Cons.prems(1)]
  show ?case
  proof (cases i)
    case 0
    show ?thesis
    proof (cases "varargs spec")
      case True
      with 0 show ?thesis
        by (simp add: Let_def map_of_objSet)
    next
      case False
      from Cons.prems(2) have "name spec \<notin> set (map name specs)"
        by simp
      from applySchemaLoop_frame [OF this] False 0 show ?thesis
        by (simp add: Let_def map_of_objSet)
    qed
  next
    case (Suc j)
    with Cons.prems(3) have j: "j < length specs"
      by simp
    then have "specs \<noteq> []" by auto
    with last(2) have plain: "\<not> varargs spec" by blast
    from Cons.prems(2) have "distinct (map name specs)"
      by simp
    from Cons.IH [OF last(1) this j, of "Suc idx"] plain Suc show ?thesis
      by (simp add: Let_def)
  qed
qed

lemma applySchemaLoop_names:
  assumes "\<not> list_ex varargs (butlast specs)"
  shows "fst ` set (fst (applySchemaLoop specs positionalsArr idx named missing))
           = fst ` set named \<union> set (map name specs)"
  using assms
proof (induction specs arbitrary: idx named missing)
  case Nil
  show ?case by simp
next
  case (Cons spec specs)
  note last = varargs_only_last [OF Cons.prems]
  note keys = keys_objSet
  show ?case
  proof (cases "varargs spec")
    case True
    with last(2) have "specs = []" by simp
    with True show ?thesis
      by (simp add: Let_def keys)
  next
    case False
    with Cons.IH [OF last(1)] show ?thesis
      by (simp add: Let_def keys)
  qed
qed

text \<open>
  C9, as the code has it. The schema has its variadic slot, if any, in the last place, as
  \<^verbatim>\<open>registerPositionals\<close> demands, and its slots have different names. Then
  \<^verbatim>\<open>applyPositionalsSchema\<close>

  \<^item> flags a usage error exactly when a required slot has no positional at its index, so
    that none is flagged when at least as many positionals are given as there are slots,
    whether the last slot is variadic or not;

  \<^item> binds a slot that is not variadic to the positional at its index, or to
    \<^verbatim>\<open>undefined\<close> when there is none, and a variadic slot to the array of all positionals
    from its index on;

  \<^item> binds no other name, so that positionals beyond a last slot that is not variadic
    are bound to no name.
\<close>

theorem excess_positionals_accepted:
  assumes "\<not> list_ex varargs (butlast schema)" and "distinct (map name schema)"
    and "JUndefined \<notin> set positionalsArr"
  shows "snd (applyPositionalsSchema (Some schema) positionalsArr)
           = (\<exists>i<length schema. required (schema ! i) \<and> length positionalsArr \<le> i)
     \<and> (length schema \<le> length positionalsArr \<longrightarrow>
           \<not> snd (applyPositionalsSchema (Some schema) positionalsArr))
     \<and> (\<forall>i<length schema.
           map_of (fst (applyPositionalsSchema (Some schema) positionalsArr)) (name (schema ! i)) =
             Some (if varargs (schema ! i) then JArr (drop i positionalsArr)
                   else if i < length positionalsArr then positionalsArr ! i
                   else JUndefined))
     \<and> fst ` set (fst (applyPositionalsSchema (Some schema) positionalsArr)) = set (map name schema)"
proof -
  have flag: "snd (applyPositionalsSchema (Some schema) positionalsArr)
                = (\<exists>i<length schema. required (schema ! i) \<and> length positionalsArr \<le> i)"
    using applySchemaLoop_missing [OF assms(1,3), of 0 "[]" False]
    by (simp add: applyPositionalsSchema_def)
  have enough: "length schema \<le> length positionalsArr \<longrightarrow>
                  \<not> snd (applyPositionalsSchema (Some schema) positionalsArr)"
    unfolding flag by auto
  have bound: "\<forall>i<length schema.
           map_of (fst (applyPositionalsSchema (Some schema) positionalsArr)) (name (schema ! i)) =
             Some (if varargs (schema ! i) then JArr (drop i positionalsArr)
                   else if i < length positionalsArr then positionalsArr ! i
                   else JUndefined)"
    using applySchemaLoop_bindings [OF assms(1,2), of _ positionalsArr 0 "[]" False]
    by (simp add: applyPositionalsSchema_def)
  have names: "fst ` set (fst (applyPositionalsSchema (Some schema) positionalsArr)) = set (map name schema)"
    using applySchemaLoop_names [OF assms(1), of positionalsArr 0 "[]" False]
    by (simp add: applyPositionalsSchema_def)
  from flag enough bound names show ?thesis
    by (intro conjI)
qed

theorem excess_positionals_accepted_witness:
  "\<not> snd (applyPositionalsSchema (Some configFilePositionals)
             [JStr ''reduce.json'', JStr ''extra.json''])
   \<and> map_of (fst (applyPositionalsSchema (Some configFilePositionals)
                    [JStr ''reduce.json'', JStr ''extra.json''])) ''config_file''
       = Some (JStr ''reduce.json'')
   \<and> fst ` set (fst (applyPositionalsSchema (Some configFilePositionals)
                       [JStr ''reduce.json'', JStr ''extra.json''])) = {''config_file''}"
proof -
  have h: "\<not> list_ex varargs (butlast configFilePositionals)"
    "distinct (map name configFilePositionals)"
    "JUndefined \<notin> set [JStr ''reduce.json'', JStr ''extra.json'']"
    by (simp_all add: configFilePositionals_def)
  have slot: "(0 :: nat) < length configFilePositionals" "name (configFilePositionals ! 0) = ''config_file''"
    "\<not> varargs (configFilePositionals ! 0)" "set (map name configFilePositionals) = {''config_file''}"
    "length configFilePositionals \<le> length [JStr ''reduce.json'', JStr ''extra.json'']"
    by (simp_all add: configFilePositionals_def)
  from excess_positionals_accepted [OF h]
  have a: "\<not> snd (applyPositionalsSchema (Some configFilePositionals)
                  [JStr ''reduce.json'', JStr ''extra.json''])"
    and b: "map_of (fst (applyPositionalsSchema (Some configFilePositionals)
                    [JStr ''reduce.json'', JStr ''extra.json''])) (name (configFilePositionals ! 0))
              = Some (if varargs (configFilePositionals ! 0)
                      then JArr (drop 0 [JStr ''reduce.json'', JStr ''extra.json''])
                      else if 0 < length [JStr ''reduce.json'', JStr ''extra.json'']
                      then [JStr ''reduce.json'', JStr ''extra.json''] ! 0
                      else JUndefined)"
    and c: "fst ` set (fst (applyPositionalsSchema (Some configFilePositionals)
                       [JStr ''reduce.json'', JStr ''extra.json''])) = set (map name configFilePositionals)"
    using slot(1,5) by blast+
  from a b c slot show ?thesis
    by simp
qed

text \<open>
  C9 as stated fails: the reducer declares the single, non-variadic slot
  \<^verbatim>\<open>config_file\<close>; started with two positionals it does not exit, flags no error and
  no help, binds the first positional to the slot and keeps the second one reachable by
  its index.
\<close>

theorem excess_positionals_counterexample:
  "map_startup (\<lambda>cli. (isError cli, showHelp cli, cliGet cli ''positionals.config_file'',
                         cliGet cli ''positionals.1''))
     (moduleStartup [] configFilePositionals [''reduce.json'', ''extra.json''] [])
   = Running (False, False, JStr ''reduce.json'', JStr ''extra.json'')"
  by code_simp
text \<open>
  C2 at a failing input. Started with no arguments and an empty environment, then with
  \<^verbatim>\<open>TMCP_DO_TAG=true\<close> in the environment, the library resolves \<^verbatim>\<open>do-tag\<close> to
  \<^verbatim>\<open>false\<close>: the argument parser presets every declared boolean option to \<^verbatim>\<open>false\<close>, step
  3.1 of \<^verbatim>\<open>parseCLIOnce\<close> takes that for a command-line value, and neither the environment
  nor the registered default \<^verbatim>\<open>true\<close> is consulted. Tagging is therefore off unless
  \<^verbatim>\<open>--do-tag\<close> is given.
\<close>

theorem do_tag_default_ignored:
  "map_startup (\<lambda>cli. (cliGet cli ''param.do-tag'', tagEnabled (cliGet cli ''param.do-tag'')))
     (libraryStartup [] []) = Running (JBool False, False)
   \<and> map_startup (\<lambda>cli. cliGet cli ''param.do-tag'')
       (libraryStartup [] [(''TMCP_DO_TAG'', ''true'')]) = Running (JBool False)
   \<and> map_startup (\<lambda>cli. cliGet cli ''param.do-tag'')
       (libraryStartup [''--do-tag''] []) = Running (JBool True)"
  by code_simp

theorem do_tag_default_ignored_witness:
  "map_startup (\<lambda>cli. tagEnabled (cliGet cli ''param.do-tag'')) (libraryStartup [] [])
     = Running False"
proof -
  have "map_startup (\<lambda>cli. (cliGet cli ''param.do-tag'', tagEnabled (cliGet cli ''param.do-tag'')))
          (libraryStartup [] []) = Running (JBool False, False)"
    using do_tag_default_ignored by (rule conjunct1)
  then show ?thesis
    by (cases "libraryStartup [] []") (simp_all add: tagEnabled_def)
qed

section \<open>Properties of the minimum-rate primitive\<close>

text \<open>
  C1 at a failing input. With \<^verbatim>\<open>--interval-ms 100\<close> the interval reaches the module as
  the string \<^verbatim>\<open>"100"\<close> (a value-expecting parameter is declared to the parser as a
  string, and the module does not convert it). After a real record with timestamp 1000,
  \<^verbatim>\<open>lastLogicalTs += intervalMs\<close> concatenates: the first clone carries the string
  \<^verbatim>\<open>"1000100"\<close>. That is not a finite number, so the next clone restarts from the wall
  clock (here 5200) and carries \<^verbatim>\<open>"5200100"\<close>. With \<^verbatim>\<open>--rate 10\<close> the interval is the
  number 100 and the same record is followed by clones stamped 1100 and 1200.
\<close>

theorem minrate_interval_ms_concatenates:
  "minrateStartup [''--do-tag'', ''--interval-ms'', ''100''] [] = Running (JStr ''100'')
   \<and> (case minrateOnRecord (JBool True) 5000
              (JObj [(''meta'', JObj [(''timestamp'', JNum 1000), (''pipeline'', JArr [])]),
                     (''data'', JObj [(''x'', JNum 7)])]) initialMinrateState of
         (out0, st0) \<Rightarrow>
           (case emitClone (JStr ''100'') 5100 st0 of
              None \<Rightarrow> []
            | Some (out1, st1) \<Rightarrow>
                (case emitClone (JStr ''100'') 5200 st1 of
                   None \<Rightarrow> []
                 | Some (out2, st2) \<Rightarrow>
                     map (\<lambda>r. getProp (getProp r ''meta'') ''timestamp'') (out0 @ out1 @ out2))))
       = [JNum 1000, JStr ''1000100'', JStr ''5200100'']
   \<and> minrateStartup [''--do-tag'', ''--rate'', ''10''] [] = Running (JNum 100)
   \<and> (case minrateOnRecord (JBool True) 5000
              (JObj [(''meta'', JObj [(''timestamp'', JNum 1000), (''pipeline'', JArr [])]),
                     (''data'', JObj [(''x'', JNum 7)])]) initialMinrateState of
         (out0, st0) \<Rightarrow>
           (case emitClone (JNum 100) 5100 st0 of
              None \<Rightarrow> []
            | Some (out1, st1) \<Rightarrow>
                (case emitClone (JNum 100) 5200 st1 of
                   None \<Rightarrow> []
                 | Some (out2, st2) \<Rightarrow>
                     map (\<lambda>r. getProp (getProp r ''meta'') ''timestamp'') (out0 @ out1 @ out2))))
       = [JNum 1000, JNum 1100, JNum 1200]"
  by code_simp

theorem minrate_interval_ms_concatenates_witness:
  "minrateStartup [''--do-tag'', ''--interval-ms'', ''100''] [] = Running (JStr ''100'')
   \<and> typeofNumber (JStr ''100'') = False"
  using minrate_interval_ms_concatenates by simp

section \<open>Properties of the merge primitive\<close>





















lemma appendTag_object: "\<exists>m'. appendTag doTag (JObj m) tag = JObj m'"
  by (cases "getProp (JObj m) ''pipeline''") (simp_all add: appendTag_def del: getProp.simps)



text \<open>
  C3 at failing inputs. The merge runs with its default windows and one side path. The
  first record of the primary stream has no \<^verbatim>\<open>meta.timestamp\<close>: \<^verbatim>\<open>pushMain\<close> appends it
  and then trims the buffer from the front while \<^verbatim>\<open>(timestamp ?? 0) < now - maxBufferMs\<close>,
  which removes the record just appended, and \<^verbatim>\<open>tryEmit\<close> finds the buffer empty and
  writes nothing. The same happens to a record whose numeric timestamp is older than the
  window (a replayed recording). A record without timestamp that arrives while a recent
  record is at the front of the buffer is passed through with the tag.
\<close>

theorem merge_drops_primary_record:
  "fst (mergeOnMain (JBool True) (defaultMergeConfig 1) 1700000000000
          (JObj [(''meta'', JObj [(''pipeline'', JArr [])]), (''data'', JObj [(''x'', JNum 1)])])
          (initialMergeState 1)) = []
   \<and> fst (mergeOnMain (JBool True) (defaultMergeConfig 1) 1700000000000
          (JObj [(''meta'', JObj [(''timestamp'', JNum 1000), (''pipeline'', JArr [])]),
                 (''data'', JObj [(''x'', JNum 1)])])
          (initialMergeState 1)) = []
   \<and> fst (mergeOnMain (JBool True) (defaultMergeConfig 1) 1700000000000
          (JObj [(''meta'', JObj [(''pipeline'', JArr [])]), (''data'', JObj [(''x'', JNum 2)])])
          (snd (mergeOnMain (JBool True) (defaultMergeConfig 1) 1700000000000
                  (JObj [(''meta'', JObj [(''timestamp'', JNum 1699999999990), (''pipeline'', JArr [])]),
                         (''data'', JObj [(''x'', JNum 1)])])
                  (initialMergeState 1))))
       = [JObj [(''meta'', JObj [(''pipeline'', JArr [JStr ''mrg''])]), (''data'', JObj [(''x'', JNum 2)])]]"
  by code_simp

theorem merge_drops_primary_record_witness:
  "length (fst (mergeOnMain (JBool True) (defaultMergeConfig 1) 1700000000000
          (JObj [(''meta'', JObj [(''pipeline'', JArr [])]), (''data'', JObj [(''x'', JNum 1)])])
          (initialMergeState 1))) = 0"
  using merge_drops_primary_record by simp



section \<open>Properties of the logical-delay primitive\<close>

lemma insertionIndex_split:
  assumes "sorted (map outTs q)" and "lo \<le> hi" and "hi \<le> length q"
    and "\<forall>j<lo. outTs (q ! j) \<le> ts"
    and "\<forall>j. hi \<le> j \<and> j < length q \<longrightarrow> ts < outTs (q ! j)"
  shows "lo \<le> insertionIndex q ts lo hi \<and> insertionIndex q ts lo hi \<le> hi
       \<and> (\<forall>j<insertionIndex q ts lo hi. outTs (q ! j) \<le> ts)
       \<and> (\<forall>j. insertionIndex q ts lo hi \<le> j \<and> j < length q \<longrightarrow> ts < outTs (q ! j))"
  using assms
proof (induction q ts lo hi rule: insertionIndex.induct)
  case (1 q ts lo hi)
  let ?mid = "(lo + hi) div 2"
  show ?case
  proof (cases "lo < hi")
    case False
    with "1.prems" have "lo = hi" by simp
    with "1.prems" False show ?thesis
      by (simp add: insertionIndex.simps [of q ts hi hi])
  next
    case True
    then have mid: "lo \<le> ?mid" "?mid < hi" by simp_all
    with "1.prems" have midlen: "?mid < length q" by simp
    have mono: "outTs (q ! a) \<le> outTs (q ! b)" if "a \<le> b" "b < length q" for a b
      using sorted_nth_mono [OF "1.prems"(1), of a b] that by simp
    show ?thesis
    proof (cases "outTs (q ! ?mid) \<le> ts")
      case le: True
      have below: "\<forall>j<?mid + 1. outTs (q ! j) \<le> ts"
      proof (intro allI impI)
        fix j assume "j < ?mid + 1"
        then have "j \<le> ?mid" by simp
        from mono [OF this midlen] le show "outTs (q ! j) \<le> ts" by simp
      qed
      from mid have "?mid + 1 \<le> hi" by simp
      from "1.IH"(1) [OF True le "1.prems"(1) this "1.prems"(3) below "1.prems"(5)]
      have "?mid + 1 \<le> insertionIndex q ts (?mid + 1) hi \<and> insertionIndex q ts (?mid + 1) hi \<le> hi
          \<and> (\<forall>j<insertionIndex q ts (?mid + 1) hi. outTs (q ! j) \<le> ts)
          \<and> (\<forall>j. insertionIndex q ts (?mid + 1) hi \<le> j \<and> j < length q \<longrightarrow> ts < outTs (q ! j))" .
      moreover have "insertionIndex q ts lo hi = insertionIndex q ts (?mid + 1) hi"
        using True le by (simp add: insertionIndex.simps [of q ts lo hi])
      ultimately show ?thesis
        using mid by simp
    next
      case gt: False
      have above: "\<forall>j. ?mid \<le> j \<and> j < length q \<longrightarrow> ts < outTs (q ! j)"
      proof (intro allI impI)
        fix j assume "?mid \<le> j \<and> j < length q"
        then have "outTs (q ! ?mid) \<le> outTs (q ! j)" using mono by blast
        with gt show "ts < outTs (q ! j)" by simp
      qed
      from mid "1.prems" have "?mid \<le> length q" by simp
      from "1.IH"(2) [OF True gt "1.prems"(1) mid(1) this "1.prems"(4) above]
      have "lo \<le> insertionIndex q ts lo ?mid \<and> insertionIndex q ts lo ?mid \<le> ?mid
          \<and> (\<forall>j<insertionIndex q ts lo ?mid. outTs (q ! j) \<le> ts)
          \<and> (\<forall>j. insertionIndex q ts lo ?mid \<le> j \<and> j < length q \<longrightarrow> ts < outTs (q ! j))" .
      moreover have "insertionIndex q ts lo hi = insertionIndex q ts lo ?mid"
        using True gt by (simp add: insertionIndex.simps [of q ts lo hi])
      ultimately show ?thesis
        using mid by simp
    qed
  qed
qed

lemma insertionIndex_whole:
  assumes "sorted (map outTs q)"
  shows "insertionIndex q ts 0 (length q) \<le> length q
       \<and> (\<forall>j<insertionIndex q ts 0 (length q). outTs (q ! j) \<le> ts)
       \<and> (\<forall>j. insertionIndex q ts 0 (length q) \<le> j \<and> j < length q \<longrightarrow> ts < outTs (q ! j))"
  using insertionIndex_split [OF assms, of 0 "length q" ts] by simp

lemma insertSorted_sorted:
  assumes "sorted (map outTs q)"
  shows "sorted (map outTs (insertSorted item q))"
proof -
  let ?r = "insertionIndex q (outTs item) 0 (length q)"
  from insertionIndex_whole [OF assms, of "outTs item"]
  have r: "?r \<le> length q" and low: "\<forall>j<?r. outTs (q ! j) \<le> outTs item"
    and high: "\<forall>j. ?r \<le> j \<and> j < length q \<longrightarrow> outTs item < outTs (q ! j)"
    by blast+
  have "sorted (map outTs (take ?r q) @ map outTs (drop ?r q))"
    using assms by (simp flip: map_append)
  then have parts: "sorted (map outTs (take ?r q))" "sorted (map outTs (drop ?r q))"
    unfolding sorted_append by blast+
  have lo: "\<forall>x\<in>set (take ?r q). outTs x \<le> outTs item"
    using low r by (auto simp: in_set_conv_nth)
  have hi: "\<forall>x\<in>set (drop ?r q). outTs item \<le> outTs x"
  proof
    fix x assume "x \<in> set (drop ?r q)"
    then obtain n where "n < length q - ?r" and "x = q ! (?r + n)"
      by (auto simp: in_set_conv_nth)
    with high show "outTs item \<le> outTs x"
      by (simp add: less_imp_le)
  qed
  have cross: "\<forall>x\<in>set (take ?r q). \<forall>y\<in>set (drop ?r q). outTs x \<le> outTs y"
    using lo hi by (meson order_trans)
  from parts lo hi cross show ?thesis
    unfolding insertSorted_def
    by (simp add: sorted_append)
qed

lemma insertSorted_set: "set (insertSorted item q) = insert item (set q)"
proof -
  have "set (take n q) \<union> set (drop n q) = set q" for n
    by (metis append_take_drop_id set_append)
  then show ?thesis
    by (auto simp: insertSorted_def)
qed

lemma insertSorted_mset: "mset (insertSorted item q) = add_mset item (mset q)"
proof -
  have "mset (take n q) + mset (drop n q) = mset q" for n
    by (metis append_take_drop_id mset_append)
  then show ?thesis
    by (simp add: insertSorted_def)
qed

lemma insertSorted_at_end:
  assumes "sorted (map outTs q)" and "\<forall>x\<in>set q. outTs x \<le> outTs item"
  shows "insertSorted item q = q @ [item]"
proof -
  let ?r = "insertionIndex q (outTs item) 0 (length q)"
  from insertionIndex_whole [OF assms(1), of "outTs item"]
  have r: "?r \<le> length q"
    and high: "\<forall>j. ?r \<le> j \<and> j < length q \<longrightarrow> outTs item < outTs (q ! j)"
    by blast+
  have "?r = length q"
  proof (rule ccontr)
    assume "?r \<noteq> length q"
    with r have "?r < length q" by simp
    with high have "outTs item < outTs (q ! ?r)" by simp
    moreover from \<open>?r < length q\<close> assms(2) have "outTs (q ! ?r) \<le> outTs item" by simp
    ultimately show False by simp
  qed
  then show ?thesis
    by (simp add: insertSorted_def)
qed

lemma shiftReady_append: "fst (shiftReady w q) @ snd (shiftReady w q) = q"
  by (induction q) simp_all

lemma shiftReady_reached: "\<forall>x\<in>set (fst (shiftReady w q)). lessEqNaN (Some (outTs x)) w"
  by (induction q) simp_all

lemma shiftReady_rest:
  assumes "sorted (map outTs q)"
  shows "\<forall>x\<in>set (snd (shiftReady w q)). \<not> lessEqNaN (Some (outTs x)) w"
  using assms
proof (induction q)
  case Nil
  then show ?case by simp
next
  case (Cons item q)
  show ?case
  proof (cases "lessEqNaN (Some (outTs item)) w")
    case True
    with Cons show ?thesis by simp
  next
    case False
    from Cons.prems have "\<forall>x\<in>set q. outTs item \<le> outTs x"
      by simp
    with False have "\<forall>x\<in>set q. \<not> lessEqNaN (Some (outTs x)) w"
      by (auto simp: lessEqNaN_def split: option.splits)
    with False show ?thesis by simp
  qed
qed

lemma recTimestamp_object:
  assumes "recTimestamp input = JNum t"
  obtains al where "input = JObj al"
  using assms by (cases input) (simp_all add: recTimestamp_def)

lemma recTimestamp_truthy: "recTimestamp input = JNum t \<Longrightarrow> truthy input"
  by (cases input) (simp_all add: recTimestamp_def)

lemma appendTag_other:
  "k \<noteq> ''pipeline'' \<Longrightarrow> getProp (appendTag doTag (JObj m) tag) k = getProp (JObj m) k"
  by (cases "getProp (JObj m) ''pipeline''")
    (simp_all add: appendTag_def map_of_objSet del: getProp.simps, simp_all add: map_of_objSet)

lemma appendTag_array:
  "isArray (getProp (JObj m) ''pipeline'') \<Longrightarrow> isArray (getProp (appendTag doTag (JObj m) tag) ''pipeline'')"
  by (cases "getProp (JObj m) ''pipeline''")
    (simp_all add: appendTag_def map_of_objSet del: getProp.simps, simp_all add: map_of_objSet)

lemma normalizeObject_meta:
  assumes "isArray (getProp (JObj m) ''pipeline'')"
  shows "getProp (normalizeObject (JObj (objSet ''meta'' (JObj m) al))) ''meta'' = JObj m"
  using assms unfolding normalizeObject_def Let_def
  by (simp add: map_of_objSet)

lemma written_meta_timestamp:
  "recTimestamp (safeWrite (setProp ''meta''
       (appendTag doTag (JObj (objSet ''timestamp'' (JNum u) (objSet ''pipeline'' (JArr p) s))) tag)
       (JObj al))) = JNum u"
proof -
  let ?m = "objSet ''timestamp'' (JNum u) (objSet ''pipeline'' (JArr p) s)"
  obtain m' where m': "appendTag doTag (JObj ?m) tag = JObj m'"
    using appendTag_object by blast
  have "getProp (JObj ?m) ''pipeline'' = JArr p"
    by (simp add: map_of_objSet)
  then have "isArray (getProp (JObj ?m) ''pipeline'')"
    by simp
  then have arr: "isArray (getProp (JObj m') ''pipeline'')"
    using appendTag_array [of ?m doTag tag] m' by simp
  have "getProp (appendTag doTag (JObj ?m) tag) ''timestamp'' = getProp (JObj ?m) ''timestamp''"
    by (rule appendTag_other) simp
  then have ts: "getProp (JObj m') ''timestamp'' = JNum u"
    by (simp add: m' map_of_objSet)
  show ?thesis
    unfolding m' safeWrite_def recTimestamp_def setProp.simps normalizeObject_meta [OF arr]
    by (rule ts)
qed

lemma emitItem_timestamp:
  "recTimestamp (emitItem doTag \<lparr>outTs = u, storedObj = JObj al\<rparr>) = JNum u"
  unfolding emitItem_def Let_def
  by (simp only: delayItem.simps written_meta_timestamp)

lemma raised_watermark:
  "(if lessNaN w (Some t) \<or> w = None then Some t else w) =
     Some (case w of None \<Rightarrow> t | Some x \<Rightarrow> max x t)"
  by (cases w) (auto simp: lessNaN_def max_def)

lemma delayOnRecord_step:
  fixes st :: delayState and t D :: rat and input :: jsval
  assumes ts: "recTimestamp input = JNum t"
  defines "W \<equiv> (case watermarkTs st of None \<Rightarrow> t | Some x \<Rightarrow> max x t)"
  defines "Q \<equiv> insertSorted \<lparr>outTs = t + D, storedObj = input\<rparr> (queue st)"
  shows "fst (delayOnRecord doTag D now input st) = map (emitItem doTag) (fst (shiftReady (Some W) Q))"
    and "snd (delayOnRecord doTag D now input st) =
           st\<lparr>watermarkTs := Some W, queue := snd (shiftReady (Some W) Q)\<rparr>"
  using ts unfolding W_def Q_def
  by (simp_all add: delayOnRecord_def recTimestamp_truthy Let_def flushReady_def raised_watermark)

lemma shiftReady_sorted:
  assumes "sorted (map outTs q)"
  shows "sorted (map outTs (fst (shiftReady w q)))" and "sorted (map outTs (snd (shiftReady w q)))"
proof -
  have "sorted (map outTs (fst (shiftReady w q)) @ map outTs (snd (shiftReady w q)))"
    using assms shiftReady_append [of w q] by (simp flip: map_append)
  then show "sorted (map outTs (fst (shiftReady w q)))" and "sorted (map outTs (snd (shiftReady w q)))"
    unfolding sorted_append by blast+
qed

lemma delayFeed_append:
  "delayFeed doTag D (xs @ ys) st =
     (fst (delayFeed doTag D xs st) @ fst (delayFeed doTag D ys (snd (delayFeed doTag D xs st))),
      snd (delayFeed doTag D ys (snd (delayFeed doTag D xs st))))"
proof (induction xs arbitrary: st)
  case Nil
  show ?case by simp
next
  case (Cons x xs)
  obtain now input where x: "x = (now, input)" by (cases x)
  show ?case
    unfolding x by (simp add: Cons.IH)
qed

lemma delayFeed_items:
  assumes "map (\<lambda>x. recTimestamp (snd x)) inputs = map JNum ts"
    and "sorted (map outTs (queue st))"
    and "\<forall>i\<in>set (queue st). \<exists>al. storedObj i = JObj al"
  shows "\<exists>items. fst (delayFeed doTag D inputs st) = map (emitItem doTag) items
      \<and> (\<forall>i\<in>set items. \<exists>al. storedObj i = JObj al)
      \<and> (\<forall>i\<in>set (queue (snd (delayFeed doTag D inputs st))). \<exists>al. storedObj i = JObj al)
      \<and> sorted (map outTs (queue (snd (delayFeed doTag D inputs st))))
      \<and> mset items + mset (queue (snd (delayFeed doTag D inputs st)))
          = mset (queue st) + mset (map2 (\<lambda>x t. \<lparr>outTs = t + D, storedObj = snd x\<rparr>) inputs ts)
      \<and> (sorted ts \<and> (\<forall>i\<in>set (queue st). \<forall>t\<in>set ts. outTs i \<le> t + D)
           \<longrightarrow> items @ queue (snd (delayFeed doTag D inputs st))
                 = queue st @ map2 (\<lambda>x t. \<lparr>outTs = t + D, storedObj = snd x\<rparr>) inputs ts)
      \<and> inputClosed (snd (delayFeed doTag D inputs st)) = inputClosed st"
  using assms
proof (induction inputs arbitrary: ts st)
  case Nil
  then have "ts = []" by simp
  with Nil show ?case
    by (intro exI [of _ "[]"]) simp
next
  case (Cons x rest)
  let ?mk = "\<lambda>x t. \<lparr>outTs = t + D, storedObj = snd x\<rparr>"
  obtain now input where x: "x = (now, input)" by (cases x)
  from Cons.prems(1) obtain t ts' where ts: "ts = t # ts'"
    and t: "recTimestamp input = JNum t"
    and rest: "map (\<lambda>x. recTimestamp (snd x)) rest = map JNum ts'"
    unfolding x by (cases ts) auto
  from t obtain al where input: "input = JObj al"
    by (rule recTimestamp_object)
  define item where "item = \<lparr>outTs = t + D, storedObj = input\<rparr>"
  define W where "W = (case watermarkTs st of None \<Rightarrow> t | Some x \<Rightarrow> max x t)"
  define Q where "Q = insertSorted item (queue st)"
  define items1 where "items1 = fst (shiftReady (Some W) Q)"
  define st1 where "st1 = snd (delayOnRecord doTag D now input st)"
  have made: "map2 ?mk (x # rest) ts = item # map2 ?mk rest ts'"
    by (simp add: x ts item_def)
  have out1: "fst (delayOnRecord doTag D now input st) = map (emitItem doTag) items1"
    unfolding items1_def Q_def W_def item_def by (rule delayOnRecord_step(1) [OF t])
  have st1: "st1 = st\<lparr>watermarkTs := Some W, queue := snd (shiftReady (Some W) Q)\<rparr>"
    unfolding st1_def Q_def W_def item_def by (rule delayOnRecord_step(2) [OF t])
  have q1: "queue st1 = snd (shiftReady (Some W) Q)" and closed1: "inputClosed st1 = inputClosed st"
    by (simp_all add: st1)
  have split: "items1 @ queue st1 = Q"
    unfolding items1_def q1 by (rule shiftReady_append)
  have sortedQ: "sorted (map outTs Q)"
    unfolding Q_def by (rule insertSorted_sorted [OF Cons.prems(2)])
  have setQ: "set Q = insert item (set (queue st))"
    unfolding Q_def by (rule insertSorted_set)
  have msetQ: "mset Q = add_mset item (mset (queue st))"
    unfolding Q_def by (rule insertSorted_mset)
  have objQ: "\<forall>i\<in>set Q. \<exists>al. storedObj i = JObj al"
    using Cons.prems(3) by (simp add: setQ item_def input)
  have parts: "set items1 \<subseteq> set Q" "set (queue st1) \<subseteq> set Q"
    using split by (metis set_append Un_upper1, metis set_append Un_upper2)
  have sorted1: "sorted (map outTs (queue st1))"
    unfolding q1 by (rule shiftReady_sorted(2) [OF sortedQ])
  have obj1: "\<forall>i\<in>set (queue st1). \<exists>al. storedObj i = JObj al"
    and objItems1: "\<forall>i\<in>set items1. \<exists>al. storedObj i = JObj al"
    using objQ parts by blast+
  let ?st2 = "snd (delayFeed doTag D rest st1)"
  from Cons.IH [OF rest sorted1 obj1]
  obtain items2 where out2: "fst (delayFeed doTag D rest st1) = map (emitItem doTag) items2"
    and objItems2: "\<forall>i\<in>set items2. \<exists>al. storedObj i = JObj al"
    and obj2: "\<forall>i\<in>set (queue ?st2). \<exists>al. storedObj i = JObj al"
    and sorted2: "sorted (map outTs (queue ?st2))"
    and mset2: "mset items2 + mset (queue ?st2) = mset (queue st1) + mset (map2 ?mk rest ts')"
    and ord2: "sorted ts' \<and> (\<forall>i\<in>set (queue st1). \<forall>t\<in>set ts'. outTs i \<le> t + D)
                 \<longrightarrow> items2 @ queue ?st2 = queue st1 @ map2 ?mk rest ts'"
    and closed2: "inputClosed ?st2 = inputClosed st1"
    by blast
  have feed: "delayFeed doTag D (x # rest) st
                = (map (emitItem doTag) (items1 @ items2), ?st2)"
    using out1 out2 unfolding x st1_def by simp
  have all: "mset (items1 @ items2) + mset (queue ?st2)
               = mset (queue st) + mset (map2 ?mk (x # rest) ts)"
  proof -
    have "mset items1 + mset (queue st1) = add_mset item (mset (queue st))"
      using split msetQ by (metis mset_append)
    moreover have "mset (items1 @ items2) + mset (queue ?st2)
                     = mset items1 + (mset items2 + mset (queue ?st2))"
      by simp
    ultimately show ?thesis
      unfolding made mset2 by (simp add: ac_simps)
  qed
  have ord: "(items1 @ items2) @ queue ?st2 = queue st @ map2 ?mk (x # rest) ts"
    if asc: "sorted ts" and below: "\<forall>i\<in>set (queue st). \<forall>t\<in>set ts. outTs i \<le> t + D"
  proof -
    from asc have asc': "sorted ts'" and least: "\<forall>u\<in>set ts'. t \<le> u"
      by (simp_all add: ts)
    from below have "\<forall>i\<in>set (queue st). outTs i \<le> outTs item"
      by (simp add: ts item_def)
    then have Q: "Q = queue st @ [item]"
      unfolding Q_def by (rule insertSorted_at_end [OF Cons.prems(2)])
    have "\<forall>i\<in>set Q. \<forall>u\<in>set ts'. outTs i \<le> u + D"
    proof (intro ballI)
      fix i u assume i: "i \<in> set Q" and u: "u \<in> set ts'"
      show "outTs i \<le> u + D"
      proof (cases "i = item")
        case True
        with least u show ?thesis by (simp add: item_def)
      next
        case False
        with i have "i \<in> set (queue st)" by (simp add: setQ)
        with below u show ?thesis by (simp add: ts)
      qed
    qed
    with parts(2) have "\<forall>i\<in>set (queue st1). \<forall>u\<in>set ts'. outTs i \<le> u + D"
      by blast
    with ord2 asc' have "items2 @ queue ?st2 = queue st1 @ map2 ?mk rest ts'"
      by blast
    then have "(items1 @ items2) @ queue ?st2 = (items1 @ queue st1) @ map2 ?mk rest ts'"
      by simp
    also have "\<dots> = queue st @ map2 ?mk (x # rest) ts"
      unfolding split made by (simp add: Q)
    finally show ?thesis .
  qed
  have objItems: "\<forall>i\<in>set (items1 @ items2). \<exists>al. storedObj i = JObj al"
    using objItems1 objItems2 by auto
  have ordered: "sorted ts \<and> (\<forall>i\<in>set (queue st). \<forall>t\<in>set ts. outTs i \<le> t + D)
                   \<longrightarrow> (items1 @ items2) @ queue ?st2 = queue st @ map2 ?mk (x # rest) ts"
    using ord by blast
  have closed: "inputClosed ?st2 = inputClosed st"
    using closed2 closed1 by simp
  show ?case
    unfolding feed fst_conv snd_conv
    by (intro exI [of _ "items1 @ items2"] conjI refl objItems obj2 sorted2 all ordered closed)
qed

lemma emitItem_data:
  "getProp (emitItem doTag \<lparr>outTs = u, storedObj = JObj al\<rparr>) ''data'' =
     (if truthy (getProp (JObj al) ''data'') \<and> typeofObject (getProp (JObj al) ''data'')
      then getProp (JObj al) ''data'' else JObj [])"
proof -
  have written: "getProp (safeWrite (setProp ''meta'' (JObj m) (JObj al))) ''data'' =
     (if truthy (getProp (JObj al) ''data'') \<and> typeofObject (getProp (JObj al) ''data'')
      then getProp (JObj al) ''data'' else JObj [])" for m
    by (simp add: safeWrite_def normalizeObject_def Let_def map_of_objSet)
  obtain m' where "appendTag doTag
        (JObj (objSet ''timestamp'' (JNum u)
                 (objSet ''pipeline''
                    (JArr (case getProp (if truthy (JObj al) \<and> truthy (getProp (JObj al) ''meta'')
                                              \<and> typeofObject (getProp (JObj al) ''meta'')
                                           then getProp (JObj al) ''meta'' else JObj []) ''pipeline'' of
                             JArr tags \<Rightarrow> tags | _ \<Rightarrow> []))
                    (spreadObject (if truthy (JObj al) \<and> truthy (getProp (JObj al) ''meta'')
                                      \<and> typeofObject (getProp (JObj al) ''meta'')
                                   then getProp (JObj al) ''meta'' else JObj [])))))
        delayTAG = JObj m'"
    using appendTag_object by blast
  then show ?thesis
    unfolding emitItem_def Let_def delayItem.simps
    by (simp only: written)
qed

lemma delayFeed_watermark:
  assumes "map (\<lambda>x. recTimestamp (snd x)) inputs = map JNum ts"
  shows "watermarkTs (snd (delayFeed doTag D inputs st)) =
           (case watermarkTs st of
              None \<Rightarrow> (if ts = [] then None else Some (Max (set ts)))
            | Some w \<Rightarrow> Some (Max (insert w (set ts))))"
  using assms
proof (induction inputs arbitrary: ts st)
  case Nil
  then have "ts = []" by simp
  then show ?case
    by (simp split: option.splits)
next
  case (Cons x rest)
  obtain now input where x: "x = (now, input)" by (cases x)
  from Cons.prems obtain t ts' where ts: "ts = t # ts'"
    and t: "recTimestamp input = JNum t"
    and rest: "map (\<lambda>x. recTimestamp (snd x)) rest = map JNum ts'"
    unfolding x by (cases ts) auto
  define W where "W = (case watermarkTs st of None \<Rightarrow> t | Some x \<Rightarrow> max x t)"
  define st1 where "st1 = snd (delayOnRecord doTag D now input st)"
  have w1: "watermarkTs st1 = Some W"
    unfolding st1_def W_def by (simp add: delayOnRecord_step(2) [OF t])
  have "watermarkTs (snd (delayFeed doTag D (x # rest) st)) = watermarkTs (snd (delayFeed doTag D rest st1))"
    unfolding x st1_def by simp
  also have "\<dots> = Some (Max (insert W (set ts')))"
    by (simp add: Cons.IH [OF rest] w1)
  also have "Max (insert W (set ts')) =
               (case watermarkTs st of None \<Rightarrow> Max (set ts) | Some w \<Rightarrow> Max (insert w (set ts)))"
  proof (cases "watermarkTs st")
    case None
    then show ?thesis by (simp add: W_def ts)
  next
    case (Some w)
    have "Max (insert (max w t) (set ts')) = Max (insert w (insert t (set ts')))"
    proof (cases "ts' = []")
      case True
      then show ?thesis by (simp add: max.commute)
    next
      case False
      then show ?thesis by (simp add: max.assoc)
    qed
    with Some show ?thesis by (simp add: W_def ts)
  qed
  finally show ?case
    by (simp add: ts split: option.splits)
qed

lemma delayOnRecord_flush:
  fixes st :: delayState and t D :: rat and input :: jsval
  assumes t: "recTimestamp input = JNum t"
    and asc: "sorted (map outTs (queue st))"
  defines "W \<equiv> (case watermarkTs st of None \<Rightarrow> t | Some x \<Rightarrow> max x t)"
  shows "\<exists>items. fst (delayOnRecord doTag D now input st) = map (emitItem doTag) items
           \<and> items @ queue (snd (delayOnRecord doTag D now input st))
               = insertSorted \<lparr>outTs = t + D, storedObj = input\<rparr> (queue st)
           \<and> sorted (map outTs items) \<and> (\<forall>i\<in>set items. outTs i \<le> W)
           \<and> (\<forall>i\<in>set (queue (snd (delayOnRecord doTag D now input st))). W < outTs i)"
proof -
  define Q where "Q = insertSorted \<lparr>outTs = t + D, storedObj = input\<rparr> (queue st)"
  define items where "items = fst (shiftReady (Some W) Q)"
  have out: "fst (delayOnRecord doTag D now input st) = map (emitItem doTag) items"
    unfolding items_def Q_def W_def by (rule delayOnRecord_step(1) [OF t])
  have q: "queue (snd (delayOnRecord doTag D now input st)) = snd (shiftReady (Some W) Q)"
    unfolding Q_def W_def by (simp add: delayOnRecord_step(2) [OF t])
  have whole: "items @ queue (snd (delayOnRecord doTag D now input st)) = Q"
    unfolding items_def q by (rule shiftReady_append)
  have sortedQ: "sorted (map outTs Q)"
    unfolding Q_def by (rule insertSorted_sorted [OF asc])
  have ordered: "sorted (map outTs items)"
    unfolding items_def by (rule shiftReady_sorted(1) [OF sortedQ])
  have reached: "\<forall>i\<in>set items. outTs i \<le> W"
    unfolding items_def using shiftReady_reached [of "Some W" Q] by (simp add: lessEqNaN_def)
  have waiting: "\<forall>i\<in>set (queue (snd (delayOnRecord doTag D now input st))). W < outTs i"
    unfolding q using shiftReady_rest [OF sortedQ, of "Some W"] by (simp add: lessEqNaN_def not_le)
  from out whole ordered reached waiting show ?thesis
    unfolding Q_def by blast
qed

lemma delayRun_eq:
  "delayRun doTag D inputs =
     (fst (delayFeed doTag D inputs initialDelayState)
        @ map (emitItem doTag) (queue (snd (delayFeed doTag D inputs initialDelayState))),
      Some 0)"
  by (simp add: delayRun_def delayOnEnd_def flushAll_def Let_def case_prod_beta)

lemma delayFeed_arrival:
  assumes stamps: "map (\<lambda>x. recTimestamp (snd x)) inputs = map JNum ts"
    and n: "n < length inputs"
  shows "\<exists>items. fst (delayOnRecord doTag D (fst (inputs ! n)) (snd (inputs ! n))
                        (snd (delayFeed doTag D (take n inputs) initialDelayState)))
                    = map (emitItem doTag) items
           \<and> items @ queue (snd (delayFeed doTag D (take (Suc n) inputs) initialDelayState))
               = insertSorted \<lparr>outTs = ts ! n + D, storedObj = snd (inputs ! n)\<rparr>
                   (queue (snd (delayFeed doTag D (take n inputs) initialDelayState)))
           \<and> sorted (map outTs items) \<and> (\<forall>i\<in>set items. outTs i \<le> Max (set (take (Suc n) ts)))
           \<and> (\<forall>i\<in>set (queue (snd (delayFeed doTag D (take (Suc n) inputs) initialDelayState))).
                 Max (set (take (Suc n) ts)) < outTs i)"
proof -
  define st where "st = snd (delayFeed doTag D (take n inputs) initialDelayState)"
  obtain now input where x: "inputs ! n = (now, input)"
    by (cases "inputs ! n")
  from stamps have len: "length ts = length inputs"
    by (metis length_map)
  have "take n (map (\<lambda>x. recTimestamp (snd x)) inputs) = take n (map JNum ts)"
    by (simp only: stamps)
  then have pre: "map (\<lambda>x. recTimestamp (snd x)) (take n inputs) = map JNum (take n ts)"
    by (simp only: take_map)
  have "map (\<lambda>x. recTimestamp (snd x)) inputs ! n = map JNum ts ! n"
    by (simp only: stamps)
  with n len x have t: "recTimestamp input = JNum (ts ! n)"
    by simp
  have start: "sorted (map outTs (queue initialDelayState))"
    "\<forall>i\<in>set (queue initialDelayState). \<exists>al. storedObj i = JObj al"
    by (simp_all add: initialDelayState_def)
  from delayFeed_items [OF pre start, of doTag D]
  have asc: "sorted (map outTs (queue st))" and objs: "\<forall>i\<in>set (queue st). \<exists>al. storedObj i = JObj al"
    unfolding st_def by blast+
  have mark: "watermarkTs st = (if take n ts = [] then None else Some (Max (set (take n ts))))"
    unfolding st_def by (simp add: delayFeed_watermark [OF pre] initialDelayState_def)
  have W: "(case watermarkTs st of None \<Rightarrow> ts ! n | Some x \<Rightarrow> max x (ts ! n))
             = Max (set (take (Suc n) ts))"
  proof (cases "take n ts = []")
    case True
    have "take (Suc n) ts = take n ts @ [ts ! n]"
      using n len by (simp add: take_Suc_conv_app_nth)
    then have "set (take (Suc n) ts) = {ts ! n}"
      unfolding True by simp
    then show ?thesis
      by (simp add: mark True)
  next
    case False
    with n len show ?thesis
      by (simp add: mark take_Suc_conv_app_nth max.commute)
  qed
  have "take (Suc n) inputs = take n inputs @ [(now, input)]"
    using n x by (simp add: take_Suc_conv_app_nth)
  then have after: "snd (delayFeed doTag D (take (Suc n) inputs) initialDelayState)
                      = snd (delayOnRecord doTag D now input st)"
    by (simp add: delayFeed_append st_def)
  from delayOnRecord_flush [OF t asc, of doTag D now]
  show ?thesis
    unfolding W after x fst_conv snd_conv st_def [symmetric] .
qed

text \<open>
  C7 as stated fails for a record that arrives late. With a delay of 10, the inputs carry
  the timestamps 100, 200 and 50. The arrival of 200 raises the watermark to 200 and the
  item stamped 110 is written; the item stamped 60 is buffered only afterwards and is
  written next, so that the output timestamps 110, 60, 210 are not in non-decreasing
  order.
\<close>

theorem delay_late_arrival_counterexample:
  "map recTimestamp
     (fst (delayRun (JBool True) 10
        [(0, JObj [(''meta'', JObj [(''timestamp'', JNum 100), (''pipeline'', JArr [])]),
                   (''data'', JObj [(''v'', JNum 1)])]),
         (0, JObj [(''meta'', JObj [(''timestamp'', JNum 200), (''pipeline'', JArr [])]),
                   (''data'', JObj [(''v'', JNum 2)])]),
         (0, JObj [(''meta'', JObj [(''timestamp'', JNum 50), (''pipeline'', JArr [])]),
                   (''data'', JObj [(''v'', JNum 3)])])]))
   = [JNum 110, JNum 60, JNum 210]"
  by code_simp

text \<open>
  C7, as the code has it. The inputs carry the numeric timestamps \<open>ts\<close>, in the order of
  arrival, and the delay is \<open>D\<close>. The input with the timestamp \<open>t\<close> is buffered as an item
  with the output timestamp \<open>t + D\<close>. Then

  \<^item> the records written over the whole run are, each as often as it occurs, the records
    that \<^verbatim>\<open>emitItem\<close> makes of these items, one for each input;

  \<^item> the record made of an item carries the output timestamp of the item and the data of
    its input;

  \<^item> when the inputs arrive with non-decreasing timestamps, the records are written in
    the order of the inputs, so that the \<open>k\<close>-th record written carries \<open>t\<^sub>k + D\<close>;

  \<^item> the process exits with code 0 after the end of the input;

  \<^item> at each arrival the new item is inserted into the queue, and the items written are
    those at the front of the queue, in non-decreasing order of their output timestamps,
    none of which exceeds the watermark, the maximum of the input timestamps seen so
    far; every item that stays in the queue has an output timestamp above the watermark;

  \<^item> at the end of the input the whole queue is written, in its order, which is that of
    non-decreasing output timestamps, whatever the watermark is.
\<close>

theorem delay_emission_order:
  assumes stamps: "map (\<lambda>x. recTimestamp (snd x)) inputs = map JNum ts"
  shows "mset (fst (delayRun doTag D inputs))
           = mset (map (emitItem doTag)
                     (map2 (\<lambda>x t. \<lparr>outTs = t + D, storedObj = snd x\<rparr>) inputs ts))
     \<and> (\<forall>j<length inputs.
           recTimestamp (emitItem doTag \<lparr>outTs = ts ! j + D, storedObj = snd (inputs ! j)\<rparr>)
             = JNum (ts ! j + D)
           \<and> getProp (emitItem doTag \<lparr>outTs = ts ! j + D, storedObj = snd (inputs ! j)\<rparr>) ''data''
               = (if truthy (getProp (snd (inputs ! j)) ''data'')
                     \<and> typeofObject (getProp (snd (inputs ! j)) ''data'')
                  then getProp (snd (inputs ! j)) ''data'' else JObj []))
     \<and> (sorted ts \<longrightarrow>
           fst (delayRun doTag D inputs)
             = map (emitItem doTag)
                 (map2 (\<lambda>x t. \<lparr>outTs = t + D, storedObj = snd x\<rparr>) inputs ts))
     \<and> snd (delayRun doTag D inputs) = Some 0
     \<and> (\<forall>n<length inputs.
           \<exists>items. fst (delayOnRecord doTag D (fst (inputs ! n)) (snd (inputs ! n))
                           (snd (delayFeed doTag D (take n inputs) initialDelayState)))
                      = map (emitItem doTag) items
              \<and> items @ queue (snd (delayFeed doTag D (take (Suc n) inputs) initialDelayState))
                  = insertSorted \<lparr>outTs = ts ! n + D, storedObj = snd (inputs ! n)\<rparr>
                      (queue (snd (delayFeed doTag D (take n inputs) initialDelayState)))
              \<and> sorted (map outTs items)
              \<and> (\<forall>i\<in>set items. outTs i \<le> Max (set (take (Suc n) ts)))
              \<and> (\<forall>i\<in>set (queue (snd (delayFeed doTag D (take (Suc n) inputs) initialDelayState))).
                    Max (set (take (Suc n) ts)) < outTs i))
     \<and> fst (delayOnEnd doTag (snd (delayFeed doTag D inputs initialDelayState)))
         = map (emitItem doTag) (queue (snd (delayFeed doTag D inputs initialDelayState)))
     \<and> sorted (map outTs (queue (snd (delayFeed doTag D inputs initialDelayState))))"
proof -
  let ?st = "snd (delayFeed doTag D inputs initialDelayState)"
  let ?made = "map2 (\<lambda>x t. \<lparr>outTs = t + D, storedObj = snd x\<rparr>) inputs ts"
  from stamps have len: "length ts = length inputs"
    by (metis length_map)
  have start: "sorted (map outTs (queue initialDelayState))"
    "\<forall>i\<in>set (queue initialDelayState). \<exists>al. storedObj i = JObj al"
    by (simp_all add: initialDelayState_def)
  from delayFeed_items [OF stamps start, of doTag D]
  obtain items where out: "fst (delayFeed doTag D inputs initialDelayState) = map (emitItem doTag) items"
    and asc: "sorted (map outTs (queue ?st))"
    and all: "mset items + mset (queue ?st) = mset (queue initialDelayState) + mset ?made"
    and ord: "sorted ts \<and> (\<forall>i\<in>set (queue initialDelayState). \<forall>t\<in>set ts. outTs i \<le> t + D)
                \<longrightarrow> items @ queue ?st = queue initialDelayState @ ?made"
    by blast
  have written: "fst (delayRun doTag D inputs) = map (emitItem doTag) (items @ queue ?st)"
    by (simp add: delayRun_eq out)
  from all have "mset (items @ queue ?st) = mset ?made"
    by (simp add: initialDelayState_def)
  then have one: "mset (fst (delayRun doTag D inputs)) = mset (map (emitItem doTag) ?made)"
    unfolding written by (simp only: mset_map)
  have two: "\<forall>j<length inputs.
           recTimestamp (emitItem doTag \<lparr>outTs = ts ! j + D, storedObj = snd (inputs ! j)\<rparr>)
             = JNum (ts ! j + D)
           \<and> getProp (emitItem doTag \<lparr>outTs = ts ! j + D, storedObj = snd (inputs ! j)\<rparr>) ''data''
               = (if truthy (getProp (snd (inputs ! j)) ''data'')
                     \<and> typeofObject (getProp (snd (inputs ! j)) ''data'')
                  then getProp (snd (inputs ! j)) ''data'' else JObj [])"
  proof (intro allI impI)
    fix j assume j: "j < length inputs"
    have "map (\<lambda>x. recTimestamp (snd x)) inputs ! j = map JNum ts ! j"
      by (simp only: stamps)
    with j len have "recTimestamp (snd (inputs ! j)) = JNum (ts ! j)"
      by simp
    then obtain al where al: "snd (inputs ! j) = JObj al"
      by (rule recTimestamp_object)
    show "recTimestamp (emitItem doTag \<lparr>outTs = ts ! j + D, storedObj = snd (inputs ! j)\<rparr>)
             = JNum (ts ! j + D)
           \<and> getProp (emitItem doTag \<lparr>outTs = ts ! j + D, storedObj = snd (inputs ! j)\<rparr>) ''data''
               = (if truthy (getProp (snd (inputs ! j)) ''data'')
                     \<and> typeofObject (getProp (snd (inputs ! j)) ''data'')
                  then getProp (snd (inputs ! j)) ''data'' else JObj [])"
      unfolding al by (intro conjI emitItem_timestamp emitItem_data)
  qed
  have three: "sorted ts \<longrightarrow> fst (delayRun doTag D inputs) = map (emitItem doTag) ?made"
  proof
    assume "sorted ts"
    with ord have "items @ queue ?st = ?made"
      by (simp add: initialDelayState_def)
    then show "fst (delayRun doTag D inputs) = map (emitItem doTag) ?made"
      unfolding written by (simp only:)
  qed
  have four: "snd (delayRun doTag D inputs) = Some 0"
    by (simp add: delayRun_eq)
  have five: "\<forall>n<length inputs.
           \<exists>items. fst (delayOnRecord doTag D (fst (inputs ! n)) (snd (inputs ! n))
                           (snd (delayFeed doTag D (take n inputs) initialDelayState)))
                      = map (emitItem doTag) items
              \<and> items @ queue (snd (delayFeed doTag D (take (Suc n) inputs) initialDelayState))
                  = insertSorted \<lparr>outTs = ts ! n + D, storedObj = snd (inputs ! n)\<rparr>
                      (queue (snd (delayFeed doTag D (take n inputs) initialDelayState)))
              \<and> sorted (map outTs items)
              \<and> (\<forall>i\<in>set items. outTs i \<le> Max (set (take (Suc n) ts)))
              \<and> (\<forall>i\<in>set (queue (snd (delayFeed doTag D (take (Suc n) inputs) initialDelayState))).
                    Max (set (take (Suc n) ts)) < outTs i)"
    using delayFeed_arrival [OF stamps] by blast
  have six: "fst (delayOnEnd doTag ?st) = map (emitItem doTag) (queue ?st)"
    by (simp add: delayOnEnd_def flushAll_def)
  from one two three four five six asc show ?thesis
    by (intro conjI)
qed

theorem delay_emission_order_witness:
  "fst (delayRun (JBool True) 50
        [(0, JObj [(''meta'', JObj [(''timestamp'', JNum 1000), (''pipeline'', JArr [])]),
                   (''data'', JObj [(''v'', JNum 1)])]),
         (0, JObj [(''meta'', JObj [(''timestamp'', JNum 1010), (''pipeline'', JArr [])]),
                   (''data'', JObj [(''v'', JNum 2)])])])
   = map (emitItem (JBool True))
       [\<lparr>outTs = 1050,
         storedObj = JObj [(''meta'', JObj [(''timestamp'', JNum 1000), (''pipeline'', JArr [])]),
                           (''data'', JObj [(''v'', JNum 1)])]\<rparr>,
        \<lparr>outTs = 1060,
         storedObj = JObj [(''meta'', JObj [(''timestamp'', JNum 1010), (''pipeline'', JArr [])]),
                           (''data'', JObj [(''v'', JNum 2)])]\<rparr>]
   \<and> snd (delayRun (JBool True) 50
        [(0, JObj [(''meta'', JObj [(''timestamp'', JNum 1000), (''pipeline'', JArr [])]),
                   (''data'', JObj [(''v'', JNum 1)])]),
         (0, JObj [(''meta'', JObj [(''timestamp'', JNum 1010), (''pipeline'', JArr [])]),
                   (''data'', JObj [(''v'', JNum 2)])])]) = Some 0"
proof -
  let ?inputs = "[(0, JObj [(''meta'', JObj [(''timestamp'', JNum 1000), (''pipeline'', JArr [])]),
                            (''data'', JObj [(''v'', JNum 1)])]),
                  (0, JObj [(''meta'', JObj [(''timestamp'', JNum 1010), (''pipeline'', JArr [])]),
                            (''data'', JObj [(''v'', JNum 2)])])] :: (rat \<times> jsval) list"
  have stamps: "map (\<lambda>x. recTimestamp (snd x)) ?inputs = map JNum [1000, 1010]"
    by (simp add: recTimestamp_def)
  have "sorted [1000, 1010 :: rat]"
    by simp
  with delay_emission_order [OF stamps, of "JBool True" 50] show ?thesis
    by simp
qed
section \<open>Properties of the deduplication primitive\<close>








section \<open>Properties of the reducer\<close>












end
